theory Spec2Isabelle
  imports Complex_Main
begin

section \<open>The environment of \<^verbatim>\<open>main.py\<close>\<close>

subsection \<open>Filesystem\<close>

text \<open>
  The program works below its current working directory. A directory maps entry names
  to nodes; a node is a regular file with its text, or a directory again. The working
  directory itself is a \<open>directory\<close>. Permissions, symbolic links and device limits
  are not part of this model: the only failures are those that follow from what a
  name denotes.
\<close>

datatype node = File string | Dir "string \<Rightarrow> node option"

type_synonym directory = "string \<Rightarrow> node option"

type_synonym path = "string list"

fun resolve_node :: "node \<Rightarrow> path \<Rightarrow> node option" where
  "resolve_node n [] = Some n"
| "resolve_node (File _) (_ # _) = None"
| "resolve_node (Dir m) (c # cs) = (case m c of None \<Rightarrow> None | Some n \<Rightarrow> resolve_node n cs)"

definition resolve :: "directory \<Rightarrow> path \<Rightarrow> node option" where
  "resolve fs p = resolve_node (Dir fs) p"

datatype os_error =
  FileNotFoundError | FileExistsError | NotADirectoryError | IsADirectoryError | IndexError

subsection \<open>Observable events\<close>

text \<open>
  Every filesystem operation that succeeds and every line printed is recorded, oldest
  first. \<open>effect\<close> is what a recorded operation does to the working directory:
  \<open>Rmtree\<close> drops an entry with everything below it, \<open>Mkdir\<close> adds an empty directory
  unless the entry is there already, \<open>Open\<close> (mode \<^verbatim>\<open>w+\<close>) creates or truncates a
  file, \<open>Write\<close> stores the text of an open file.
\<close>

datatype event =
  Rmtree path | Mkdir path | Open path | Write path string | Close path | Print string

fun effect :: "event \<Rightarrow> directory \<Rightarrow> directory" where
  "effect (Rmtree [d]) fs = fs(d := None)"
| "effect (Mkdir [d]) fs = (case fs d of None \<Rightarrow> fs(d \<mapsto> Dir Map.empty) | Some _ \<Rightarrow> fs)"
| "effect (Open [d, f]) fs =
     (case fs d of Some (Dir m) \<Rightarrow> fs(d \<mapsto> Dir (m(f \<mapsto> File ''''))) | _ \<Rightarrow> fs)"
| "effect (Write [d, f] data) fs =
     (case fs d of
        Some (Dir m) \<Rightarrow>
          (case m f of Some (File _) \<Rightarrow> fs(d \<mapsto> Dir (m(f \<mapsto> File data))) | _ \<Rightarrow> fs)
      | _ \<Rightarrow> fs)"
| "effect _ fs = fs"

definition replay :: "event list \<Rightarrow> directory \<Rightarrow> directory" where
  "replay evs fs = fold effect evs fs"

subsection \<open>The world a run acts on\<close>

text \<open>
  \<open>clock\<close> holds the successive readings of \<^verbatim>\<open>time.perf_counter()\<close>, \<open>rand\<close> the
  successive results of \<^verbatim>\<open>random.random()\<close> of the process-wide generator, and
  \<open>sched\<close> the choices of the thread scheduler while the worker pool runs.
  A computation returns its result or the exception it raised, and the world it leaves.
\<close>

record world =
  cwd :: directory
  trace :: "event list"
  clock :: "nat \<Rightarrow> real"
  clock_pos :: nat
  rand :: "nat \<Rightarrow> real"
  rand_pos :: nat
  sched :: "nat list"

type_synonym 'a io = "world \<Rightarrow> (os_error + 'a) \<times> world"

definition perform :: "event \<Rightarrow> world \<Rightarrow> world" where
  "perform e s = s\<lparr>cwd := effect e (cwd s), trace := trace s @ [e]\<rparr>"

definition io_bind :: "'a io \<Rightarrow> ('a \<Rightarrow> 'b io) \<Rightarrow> 'b io" where
  "io_bind m k s = (case m s of (Inl e, s') \<Rightarrow> (Inl e, s') | (Inr x, s') \<Rightarrow> k x s')"

text \<open>A \<^verbatim>\<open>for\<close> loop: the first exception ends it.\<close>

fun for_each :: "('a \<Rightarrow> unit io) \<Rightarrow> 'a list \<Rightarrow> unit io" where
  "for_each body [] s = (Inr (), s)"
| "for_each body (x # xs) s =
     (case body x s of (Inl e, s') \<Rightarrow> (Inl e, s') | (Inr _, s') \<Rightarrow> for_each body xs s')"

text \<open>A list comprehension over \<^verbatim>\<open>range(k)\<close> whose element is computed with effects.\<close>

fun list_comp :: "nat \<Rightarrow> 'a io \<Rightarrow> 'a list io" where
  "list_comp 0 m s = (Inr [], s)"
| "list_comp (Suc k) m s =
     (case m s of
        (Inl e, s1) \<Rightarrow> (Inl e, s1)
      | (Inr x, s1) \<Rightarrow>
          (case list_comp k m s1 of
             (Inl e, s2) \<Rightarrow> (Inl e, s2)
           | (Inr xs, s2) \<Rightarrow> (Inr (x # xs), s2)))"

subsection \<open>Library calls\<close>

text \<open>
  Paths are relative to the working directory. The directory names the program passes
  are single path components, so \<^verbatim>\<open>./{dirname}\<close> is the entry \<open>dirname\<close> and
  \<^verbatim>\<open>./{dir_name}/{idx}.txt\<close> is the pair of a directory entry and a file name.
\<close>

definition path_exists :: "string \<Rightarrow> world \<Rightarrow> bool" where
  "path_exists d s = (cwd s d \<noteq> None)"

definition shutil_rmtree :: "string \<Rightarrow> unit io" where
  "shutil_rmtree d s =
     (case cwd s d of
        None \<Rightarrow> (Inl FileNotFoundError, s)
      | Some (File _) \<Rightarrow> (Inl NotADirectoryError, s)
      | Some (Dir _) \<Rightarrow> (Inr (), perform (Rmtree [d]) s))"

text \<open>\<^verbatim>\<open>Path.mkdir(parents=True, exist_ok=True)\<close>: an existing directory is accepted,
  an existing regular file is not.\<close>

definition path_mkdir :: "string \<Rightarrow> unit io" where
  "path_mkdir d s =
     (case cwd s d of
        Some (File _) \<Rightarrow> (Inl FileExistsError, s)
      | _ \<Rightarrow> (Inr (), perform (Mkdir [d]) s))"

text \<open>Opening for writing (\<^verbatim>\<open>w+\<close>), writing the text and closing. The builtin
  \<^verbatim>\<open>open\<close>, \<^verbatim>\<open>aiofiles.open\<close> and \<^verbatim>\<open>aiofile.AIOFile\<close> are the same three steps;
  an awaited step has finished when the coroutine goes on.\<close>

definition os_open :: "string \<times> string \<Rightarrow> unit io" where
  "os_open file_name s =
     (case file_name of (d, f) \<Rightarrow>
        (case cwd s d of
           None \<Rightarrow> (Inl FileNotFoundError, s)
         | Some (File _) \<Rightarrow> (Inl NotADirectoryError, s)
         | Some (Dir m) \<Rightarrow>
             (case m f of
                Some (Dir _) \<Rightarrow> (Inl IsADirectoryError, s)
              | _ \<Rightarrow> (Inr (), perform (Open [d, f]) s))))"

definition os_write :: "string \<times> string \<Rightarrow> string \<Rightarrow> unit io" where
  "os_write file_name data s =
     (case file_name of (d, f) \<Rightarrow> (Inr (), perform (Write [d, f] data) s))"

definition os_close :: "string \<times> string \<Rightarrow> world \<Rightarrow> world" where
  "os_close file_name s = (case file_name of (d, f) \<Rightarrow> perform (Close [d, f]) s)"

text \<open>A \<^verbatim>\<open>with\<close> block over an opened file: the file is closed on the way out,
  whether the body returned or raised.\<close>

definition with_open :: "string \<times> string \<Rightarrow> unit io \<Rightarrow> unit io" where
  "with_open file_name body s =
     (case os_open file_name s of
        (Inl e, s1) \<Rightarrow> (Inl e, s1)
      | (Inr _, s1) \<Rightarrow> (case body s1 of (r, s2) \<Rightarrow> (r, os_close file_name s2)))"

definition py_print :: "string \<Rightarrow> world \<Rightarrow> world" where
  "py_print line s = perform (Print line) s"

definition perf_counter :: "world \<Rightarrow> real \<times> world" where
  "perf_counter s = (clock s (clock_pos s), s\<lparr>clock_pos := Suc (clock_pos s)\<rparr>)"

definition random_random :: "world \<Rightarrow> real \<times> world" where
  "random_random s = (rand s (rand_pos s), s\<lparr>rand_pos := Suc (rand_pos s)\<rparr>)"

text \<open>\<^verbatim>\<open>str\<close> of an integer, and indexing a sequence with an integer.\<close>

fun str_nat :: "nat \<Rightarrow> string" where
  "str_nat n =
     (if n < 10 then [''0123456789'' ! n]
      else str_nat (n div 10) @ [''0123456789'' ! (n mod 10)])"

definition str_int :: "int \<Rightarrow> string" where
  "str_int i = (if i < 0 then ''-'' @ str_nat (nat (- i)) else str_nat (nat i))"

definition py_index :: "'a list \<Rightarrow> int \<Rightarrow> os_error + 'a" where
  "py_index xs i =
     (if 0 \<le> i \<and> i < int (length xs) then Inr (xs ! nat i)
      else if i < 0 \<and> - int (length xs) \<le> i then Inr (xs ! nat (int (length xs) + i))
      else Inl IndexError)"

section \<open>The program\<close>

subsection \<open>Directories\<close>

definition delete_dir :: "string \<Rightarrow> unit io" where
  "delete_dir dirname s =
     (let dirpath = dirname
      in if path_exists dirpath s then shutil_rmtree dirpath s else (Inr (), s))"

definition make_dir :: "string \<Rightarrow> unit io" where
  "make_dir dirname s = (let dirpath = dirname in path_mkdir dirpath s)"

datatype Dirs = AIOFILES | AIOFILE | FILE | EXECUTOR

fun Dirs_value :: "Dirs \<Rightarrow> string" where
  "Dirs_value AIOFILES = ''aiofiles''"
| "Dirs_value AIOFILE = ''aiofile''"
| "Dirs_value FILE = ''file''"
| "Dirs_value EXECUTOR = ''executor''"

fun Dirs_name :: "Dirs \<Rightarrow> string" where
  "Dirs_name AIOFILES = ''AIOFILES''"
| "Dirs_name AIOFILE = ''AIOFILE''"
| "Dirs_name FILE = ''FILE''"
| "Dirs_name EXECUTOR = ''EXECUTOR''"

text \<open>Iterating over the enumeration yields its members in the order of definition.
  Formatting a member of a plain \<^verbatim>\<open>enum.Enum\<close> in an f-string gives the class name,
  a dot and the member's name.\<close>

definition Dirs_members :: "Dirs list" where
  "Dirs_members = [AIOFILES, AIOFILE, FILE, EXECUTOR]"

definition Dirs_format :: "Dirs \<Rightarrow> string" where
  "Dirs_format d = ''Dirs.'' @ Dirs_name d"

text \<open>The body of the first loop of \<^verbatim>\<open>test\<close>: delete the directory, then make it.\<close>

definition reset_dir :: "string \<Rightarrow> unit io" where
  "reset_dir dirname = io_bind (delete_dir dirname) (\<lambda>_. make_dir dirname)"

subsection \<open>Random chunks\<close>

definition ascii_uppercase :: string where
  "ascii_uppercase = ''ABCDEFGHIJKLMNOPQRSTUVWXYZ''"

definition digits :: string where
  "digits = ''0123456789''"

text \<open>\<^verbatim>\<open>random.choices(population, k=k)\<close> is
  \<^verbatim>\<open>[population[floor(random() * n)] for i in repeat(None, k)]\<close> with \<open>n\<close> the length
  of the population; a negative \<open>k\<close> repeats nothing.\<close>

definition random_choices :: "'a list \<Rightarrow> int \<Rightarrow> 'a list io" where
  "random_choices population k =
     list_comp (nat k)
       (\<lambda>s. case random_random s of
              (u, s1) \<Rightarrow> (py_index population \<lfloor>u * real (length population)\<rfloor>, s1))"

text \<open>Joining one-character strings gives the list of the characters.\<close>

definition random_string :: "int \<Rightarrow> string \<Rightarrow> string io" where
  "random_string count chars = random_choices chars count"

definition generate_random_chunks :: "int \<Rightarrow> int \<Rightarrow> string list io" where
  "generate_random_chunks n chunk_size =
     list_comp (nat n) (random_string chunk_size (ascii_uppercase @ digits))"

subsection \<open>Timing\<close>

text \<open>
  \<open>perf_manager\<close> is the context manager around a body: the \<^verbatim>\<open>finally\<close> block runs
  whether the body returned or raised, and the body's outcome is what leaves the
  \<^verbatim>\<open>with\<close> statement. How a float is rendered by \<^verbatim>\<open>:.6f\<close> is the runtime's; it is the
  parameter \<open>fmt6f\<close>. The two wrappers of \<open>timeit\<close> differ in awaiting the function only.
\<close>

definition perf_manager :: "(real \<Rightarrow> string) \<Rightarrow> string \<Rightarrow> 'a io \<Rightarrow> 'a io" where
  "perf_manager fmt6f description body s =
     (case perf_counter s of (start_time, s1) \<Rightarrow>
      case body s1 of (r, s2) \<Rightarrow>
      case perf_counter s2 of (finish_time, s3) \<Rightarrow>
        (let time_delta = (finish_time - start_time) * 10 ^ 3
         in (r, py_print (description @ '': '' @ fmt6f time_delta @ '' ms'') s3)))"

definition timeit ::
  "(real \<Rightarrow> string) \<Rightarrow> string \<Rightarrow> bool \<Rightarrow> ('a \<Rightarrow> 'b io) \<Rightarrow> 'a \<Rightarrow> 'b io" where
  "timeit fmt6f description sync func =
     (let wrapper = (\<lambda>args. perf_manager fmt6f description (func args));
          wrapper_async = (\<lambda>args. perf_manager fmt6f description (func args))
      in if sync then wrapper else wrapper_async)"

subsection \<open>The four write strategies\<close>

definition txt_name :: "string \<Rightarrow> nat \<Rightarrow> string \<times> string" where
  "txt_name dir_name idx = (dir_name, str_nat idx @ ''.txt'')"

definition write_file :: "string \<times> string \<Rightarrow> string \<Rightarrow> unit io" where
  "write_file file_name data = with_open file_name (os_write file_name data)"

definition test_aiofiles :: "(real \<Rightarrow> string) \<Rightarrow> string list \<Rightarrow> unit io" where
  "test_aiofiles fmt6f =
     timeit fmt6f (Dirs_format AIOFILES) False
       (\<lambda>chunks.
          let dir_name = Dirs_value AIOFILES
          in for_each
               (\<lambda>(idx, chunk).
                  with_open (txt_name dir_name idx) (os_write (txt_name dir_name idx) chunk))
               (enumerate 0 chunks))"

definition test_aiofile :: "(real \<Rightarrow> string) \<Rightarrow> string list \<Rightarrow> unit io" where
  "test_aiofile fmt6f =
     timeit fmt6f (Dirs_format AIOFILE @ '' '') False
       (\<lambda>chunks.
          let dir_name = Dirs_value AIOFILE
          in for_each
               (\<lambda>(idx, chunk).
                  with_open (txt_name dir_name idx) (os_write (txt_name dir_name idx) chunk))
               (enumerate 0 chunks))"

definition test_file :: "(real \<Rightarrow> string) \<Rightarrow> string list \<Rightarrow> unit io" where
  "test_file fmt6f =
     timeit fmt6f (Dirs_format FILE @ ''    '') True
       (\<lambda>chunks.
          let dir_name = Dirs_value FILE
          in for_each (\<lambda>(idx, chunk). write_file (txt_name dir_name idx) chunk)
               (enumerate 0 chunks))"

text \<open>
  The worker pool. A submitted task is \<^verbatim>\<open>write_file\<close> applied to its arguments; it
  runs on a worker thread in three steps (open, write, close), and the steps of
  different tasks interleave as the scheduler decides. \<open>pool_step tasks i\<close> lets task
  \<open>i\<close> take its next step. \<open>gather\<close> follows the scheduler's choices and then lets every
  task that has not finished run to its end, so all tasks have finished when it
  returns; it raises the exception of the task that failed first. Every interleaving is
  allowed, those of the three workers of the pool among them. (When a task fails,
  \<^verbatim>\<open>asyncio.gather\<close> resumes its caller at once while the other tasks still run on
  their threads; here they have run to their end before the exception is seen. A run in
  which no task fails is not affected.)
\<close>

datatype task_state = Pending | IsOpen | Wrote | Finished | Failed os_error

type_synonym task = "(string \<times> string) \<times> string"

definition task_step :: "task \<Rightarrow> task_state \<Rightarrow> world \<Rightarrow> task_state \<times> world" where
  "task_step t st s =
     (case t of (file_name, data) \<Rightarrow>
        (case st of
           Pending \<Rightarrow>
             (case os_open file_name s of
                (Inl e, s') \<Rightarrow> (Failed e, s')
              | (Inr _, s') \<Rightarrow> (IsOpen, s'))
         | IsOpen \<Rightarrow> (Wrote, snd (os_write file_name data s))
         | Wrote \<Rightarrow> (Finished, os_close file_name s)
         | Finished \<Rightarrow> (Finished, s)
         | Failed e \<Rightarrow> (Failed e, s)))"

type_synonym pool = "task_state list \<times> os_error option"

definition pool_step :: "task list \<Rightarrow> nat \<Rightarrow> pool \<times> world \<Rightarrow> pool \<times> world" where
  "pool_step tasks i ps =
     (case ps of ((sts, err), s) \<Rightarrow>
        if i < length tasks then
          (case task_step (tasks ! i) (sts ! i) s of
             (st', s') \<Rightarrow>
               ((sts[i := st'],
                 (case err of
                    Some e \<Rightarrow> Some e
                  | None \<Rightarrow> (case st' of Failed e \<Rightarrow> Some e | _ \<Rightarrow> None))),
                s'))
        else ps)"

definition gather :: "task list \<Rightarrow> unit io" where
  "gather tasks s =
     (let order = sched s @ concat (map (\<lambda>i. [i, i, i]) [0..<length tasks])
      in case fold (pool_step tasks) order ((replicate (length tasks) Pending, None), s) of
           ((sts, None), s') \<Rightarrow> (Inr (), s')
         | ((sts, Some e), s') \<Rightarrow> (Inl e, s'))"

definition test_executor :: "(real \<Rightarrow> string) \<Rightarrow> string list \<Rightarrow> unit io" where
  "test_executor fmt6f =
     timeit fmt6f (Dirs_format EXECUTOR) False
       (\<lambda>chunks.
          let dir_name = Dirs_value EXECUTOR;
              coros = map (\<lambda>(idx, chunk). (txt_name dir_name idx, chunk)) (enumerate 0 chunks)
          in gather coros)"

subsection \<open>The harness\<close>

definition test :: "(real \<Rightarrow> string) \<Rightarrow> string list \<Rightarrow> unit io" where
  "test fmt6f chunks =
     io_bind (for_each (\<lambda>dirname. reset_dir (Dirs_value dirname)) Dirs_members) (\<lambda>_.
     io_bind (test_aiofiles fmt6f chunks) (\<lambda>_.
     io_bind (test_aiofile fmt6f chunks) (\<lambda>_.
     io_bind (test_executor fmt6f chunks) (\<lambda>_.
     io_bind (test_file fmt6f chunks) (\<lambda>_.
     for_each (\<lambda>dirname. delete_dir (Dirs_value dirname)) Dirs_members)))))"

text \<open>\<^verbatim>\<open>main\<close> takes no argument and reads no setting: the count and the size of the
  chunks are the two literals below. An exception of \<^verbatim>\<open>test\<close> leaves through the
  \<^verbatim>\<open>finally\<close> block, which prints the last line.\<close>

definition main :: "(real \<Rightarrow> string) \<Rightarrow> unit io" where
  "main fmt6f s =
     (let n = 10; chunk_size = 1024 * 10;
          s1 = py_print (''n='' @ str_int n @ '', chunk_size='' @ str_int chunk_size) s
      in case generate_random_chunks n chunk_size s1 of
           (Inl e, s2) \<Rightarrow> (Inl e, s2)
         | (Inr chunks, s2) \<Rightarrow>
             (case test fmt6f chunks s2 of (r, s3) \<Rightarrow> (r, py_print ''Exited'' s3)))"

section \<open>Notions used to state the properties\<close>

text \<open>
  \<open>after evs k s\<close> is the world \<open>s\<close> after the operations \<open>evs\<close> were performed and
  recorded and the clock was read \<open>k\<close> times.
\<close>

definition after :: "event list \<Rightarrow> nat \<Rightarrow> world \<Rightarrow> world" where
  "after evs k s =
     s\<lparr>cwd := replay evs (cwd s), trace := trace s @ evs, clock_pos := clock_pos s + k\<rparr>"

text \<open>
  The operations of one file written: opened, written, closed. \<open>seq_events d k chunks\<close>
  are the operations of a loop that writes the chunks one after the other to the files
  \<open>k.txt\<close>, \<open>(k+1).txt\<close>, ... of the directory \<open>d\<close>.
\<close>

definition file_events :: "string \<times> string \<Rightarrow> string \<Rightarrow> event list" where
  "file_events file_name data =
     (case file_name of (d, f) \<Rightarrow> [Open [d, f], Write [d, f] data, Close [d, f]])"

definition seq_events :: "string \<Rightarrow> nat \<Rightarrow> string list \<Rightarrow> event list" where
  "seq_events d k chunks =
     concat (map (\<lambda>(idx, chunk). file_events (txt_name d idx) chunk) (enumerate k chunks))"

text \<open>A directory that holds no directory: every name in it can be opened for writing.\<close>

definition plain_dir :: "directory \<Rightarrow> string \<Rightarrow> bool" where
  "plain_dir fs d = (\<exists>m. fs d = Some (Dir m) \<and> (\<forall>f m'. m f \<noteq> Some (Dir m')))"

text \<open>
  The files a strategy is to leave in its directory: \<open>i.txt\<close> with the text of the
  \<open>i\<close>-th chunk, and nothing else.
\<close>

definition chunk_files :: "string list \<Rightarrow> directory" where
  "chunk_files chunks =
     map_of (map (\<lambda>(idx, chunk). (str_nat idx @ ''.txt'', File chunk)) (enumerate 0 chunks))"

text \<open>The line \<open>perf_manager\<close> prints, and the lines among recorded events.\<close>

definition timing_line :: "(real \<Rightarrow> string) \<Rightarrow> string \<Rightarrow> real \<Rightarrow> real \<Rightarrow> string" where
  "timing_line fmt6f description start_time finish_time =
     description @ '': '' @ fmt6f ((finish_time - start_time) * 10 ^ 3) @ '' ms''"

fun printed :: "event list \<Rightarrow> string list" where
  "printed [] = []"
| "printed (Print line # evs) = line # printed evs"
| "printed (_ # evs) = printed evs"

text \<open>
  The operations of the first loop of \<^verbatim>\<open>test\<close> on a working directory (a label that
  exists is removed, then every label is made), of its last loop, and of the four
  strategies between them; \<open>ed\<close> are the operations of the worker pool in the order
  they happened.
\<close>

definition reset_events :: "directory \<Rightarrow> event list" where
  "reset_events fs =
     concat (map (\<lambda>d. (if fs (Dirs_value d) = None then [] else [Rmtree [Dirs_value d]])
                        @ [Mkdir [Dirs_value d]]) Dirs_members)"

definition cleanup_events :: "event list" where
  "cleanup_events = map (\<lambda>d. Rmtree [Dirs_value d]) Dirs_members"

definition run_events :: "(real \<Rightarrow> string) \<Rightarrow> string list \<Rightarrow> world \<Rightarrow> event list \<Rightarrow> event list" where
  "run_events fmt6f chunks s ed =
     seq_events ''aiofiles'' 0 chunks @
     [Print (timing_line fmt6f ''Dirs.AIOFILES'' (clock s (clock_pos s)) (clock s (clock_pos s + 1)))] @
     seq_events ''aiofile'' 0 chunks @
     [Print (timing_line fmt6f ''Dirs.AIOFILE '' (clock s (clock_pos s + 2)) (clock s (clock_pos s + 3)))] @
     ed @
     [Print (timing_line fmt6f ''Dirs.EXECUTOR'' (clock s (clock_pos s + 4)) (clock s (clock_pos s + 5)))] @
     seq_events ''file'' 0 chunks @
     [Print (timing_line fmt6f ''Dirs.FILE    '' (clock s (clock_pos s + 6)) (clock s (clock_pos s + 7)))]"

subsection \<open>The invariant of the worker pool\<close>

text \<open>
  While the pool runs, the entry of task \<open>i\<close> in the directory is determined by how far
  the task has come, no task has failed, the entries that belong to no task are as they
  were, and the operations recorded so far are the first steps of each task.
\<close>

definition pool_tasks :: "string \<Rightarrow> string list \<Rightarrow> task list" where
  "pool_tasks d chunks = map (\<lambda>(idx, chunk). (txt_name d idx, chunk)) (enumerate 0 chunks)"

fun entry_of :: "task_state \<Rightarrow> node option \<Rightarrow> string \<Rightarrow> node option" where
  "entry_of Pending old data = old"
| "entry_of IsOpen old data = Some (File '''')"
| "entry_of Wrote old data = Some (File data)"
| "entry_of Finished old data = Some (File data)"
| "entry_of (Failed e) old data = old"

fun rank :: "task_state \<Rightarrow> nat" where
  "rank Pending = 0"
| "rank IsOpen = Suc 0"
| "rank Wrote = Suc (Suc 0)"
| "rank Finished = Suc (Suc (Suc 0))"
| "rank (Failed e) = 0"

fun advance :: "task_state \<Rightarrow> task_state" where
  "advance Pending = IsOpen"
| "advance IsOpen = Wrote"
| "advance Wrote = Finished"
| "advance Finished = Finished"
| "advance (Failed e) = Failed e"

definition pool_inv ::
  "string \<Rightarrow> string list \<Rightarrow> directory \<Rightarrow> world \<Rightarrow> pool \<times> world \<Rightarrow> bool" where
  "pool_inv d chunks m0 s ps =
     (case ps of ((sts, err), s') \<Rightarrow>
        length sts = length chunks \<and> err = None \<and>
        (\<forall>i<length chunks. \<forall>e. sts ! i \<noteq> Failed e) \<and>
        (\<exists>evs m. s' = after evs 0 s \<and>
           (\<forall>e\<in>set evs. \<exists>i<length chunks. e \<in> set (file_events (txt_name d i) (chunks ! i))) \<and>
           (\<forall>i<length chunks.
              set (take (rank (sts ! i)) (file_events (txt_name d i) (chunks ! i))) \<subseteq> set evs) \<and>
           cwd s' = (cwd s)(d \<mapsto> Dir m) \<and>
           (\<forall>i<length chunks.
              m (str_nat i @ ''.txt'') = entry_of (sts ! i) (m0 (str_nat i @ ''.txt'')) (chunks ! i)) \<and>
           (\<forall>f. (\<forall>i<length chunks. f \<noteq> str_nat i @ ''.txt'') \<longrightarrow> m f = m0 f)))"

subsection \<open>Example worlds\<close>

text \<open>
  A world with the given working directory and scheduler choices, nothing recorded yet,
  a clock that advances one second per reading and a generator that always yields one
  half; a formatter for whole numbers of milliseconds.
\<close>

definition example_world :: "directory \<Rightarrow> nat list \<Rightarrow> world" where
  "example_world fs order =
     \<lparr>cwd = fs, trace = [], clock = (\<lambda>k. real k), clock_pos = 0,
      rand = (\<lambda>k. 1 / 2), rand_pos = 0, sched = order\<rparr>"

definition example_fmt :: "real \<Rightarrow> string" where
  "example_fmt t = str_int \<lfloor>t\<rfloor> @ ''.000000''"

definition stray_file :: directory where
  "stray_file = Map.empty(''aiofiles'' \<mapsto> File ''x'')"

definition old_run :: directory where
  "old_run = Map.empty(''aiofiles'' \<mapsto> Dir (Map.empty(''0.txt'' \<mapsto> File ''OLD'')))"

definition four_dirs :: directory where
  "four_dirs = Map.empty(''aiofiles'' \<mapsto> Dir Map.empty, ''aiofile'' \<mapsto> Dir Map.empty,
                 ''file'' \<mapsto> Dir Map.empty, ''executor'' \<mapsto> Dir Map.empty)"

section \<open>Basic facts\<close>

subsection \<open>Decimal numerals are injective\<close>

lemma digit_inj:
  assumes "a < 10" and "b < 10" and "''0123456789'' ! a = ''0123456789'' ! b"
  shows "a = b"
proof -
  have "distinct ''0123456789''" by simp
  moreover have "a < length ''0123456789''" "b < length ''0123456789''"
    using assms by simp_all
  ultimately show ?thesis using assms(3) by (simp only: nth_eq_iff_index_eq)
qed

lemma str_nat_small: "n < 10 \<Longrightarrow> str_nat n = [''0123456789'' ! n]"
  by simp

lemma str_nat_large:
  "\<not> n < 10 \<Longrightarrow> str_nat n = str_nat (n div 10) @ [''0123456789'' ! (n mod 10)]"
  by (subst str_nat.simps) simp

lemma str_nat_nonempty: "str_nat n \<noteq> []"
  by (subst str_nat.simps) simp

declare str_nat.simps [simp del]

lemma str_nat_small_large:
  assumes "m < 10" and "\<not> n < 10"
  shows "str_nat m \<noteq> str_nat n"
proof -
  have "length (str_nat m) = 1" using assms(1) by (simp add: str_nat_small)
  moreover have "length (str_nat (n div 10)) \<noteq> 0" using str_nat_nonempty by simp
  then have "length (str_nat n) \<noteq> 1" using assms(2) by (simp add: str_nat_large)
  ultimately show ?thesis by metis
qed

lemma str_nat_inj: "str_nat m = str_nat n \<Longrightarrow> m = n"
proof (induction m arbitrary: n rule: str_nat.induct)
  case (1 m)
  show ?case
  proof (cases "m < 10")
    case True
    note m = this
    show ?thesis
    proof (cases "n < 10")
      case True
      from "1.prems" have "''0123456789'' ! m = ''0123456789'' ! n"
        by (simp add: str_nat_small [OF m] str_nat_small [OF True])
      with m True show ?thesis by (rule digit_inj)
    next
      case False
      with m "1.prems" show ?thesis using str_nat_small_large by blast
    qed
  next
    case False
    note m = this
    show ?thesis
    proof (cases "n < 10")
      case True
      with m "1.prems" show ?thesis using str_nat_small_large [of n m] by simp
    next
      case False
      from "1.prems" have "str_nat (m div 10) @ [''0123456789'' ! (m mod 10)]
          = str_nat (n div 10) @ [''0123456789'' ! (n mod 10)]"
        by (simp only: str_nat_large [OF m] str_nat_large [OF False])
      then have e: "str_nat (m div 10) = str_nat (n div 10)"
        and d: "''0123456789'' ! (m mod 10) = ''0123456789'' ! (n mod 10)"
        by (simp_all only: append1_eq_conv)
      from "1.IH" [OF m e] have q: "m div 10 = n div 10" .
      from d have r: "m mod 10 = n mod 10" by (intro digit_inj) simp_all
      from q r show ?thesis by (metis div_mult_mod_eq)
    qed
  qed
qed

lemma str_nat_eq_iff [simp]: "str_nat i = str_nat j \<longleftrightarrow> i = j"
  using str_nat_inj by auto

subsection \<open>Worlds and recorded operations\<close>

lemma cwd_perform [simp]: "cwd (perform e s) = effect e (cwd s)"
  by (simp add: perform_def)

lemma trace_perform [simp]: "trace (perform e s) = trace s @ [e]"
  by (simp add: perform_def)

lemma perform_fields [simp]:
  "clock (perform e s) = clock s" "clock_pos (perform e s) = clock_pos s"
  "rand (perform e s) = rand s" "rand_pos (perform e s) = rand_pos s"
  "sched (perform e s) = sched s"
  by (simp_all add: perform_def)

lemma replay_Nil [simp]: "replay [] fs = fs"
  by (simp add: replay_def)

lemma replay_Cons [simp]: "replay (e # evs) fs = replay evs (effect e fs)"
  by (simp add: replay_def)

lemma replay_append [simp]: "replay (xs @ ys) fs = replay ys (replay xs fs)"
  by (simp add: replay_def)

lemma replay_Print [simp]: "replay (evs @ [Print line]) fs = replay evs fs"
  by simp

lemma after_selectors [simp]:
  "cwd (after evs k s) = replay evs (cwd s)"
  "trace (after evs k s) = trace s @ evs"
  "clock_pos (after evs k s) = clock_pos s + k"
  "clock (after evs k s) = clock s"
  "rand (after evs k s) = rand s"
  "rand_pos (after evs k s) = rand_pos s"
  "sched (after evs k s) = sched s"
  by (simp_all add: after_def)

lemma after_nothing [simp]: "after [] 0 s = s"
  by (simp add: after_def)

lemma after_after [simp]: "after ys j (after xs i s) = after (xs @ ys) (i + j) s"
  by (simp add: after_def add.assoc)

lemma perform_after: "perform e s = after [e] 0 s"
  by (simp add: perform_def after_def)

lemma py_print_after: "py_print line s = after [Print line] 0 s"
  by (simp add: py_print_def perform_after)

lemma perf_counter_after: "perf_counter s = (clock s (clock_pos s), after [] 1 s)"
  by (simp add: perf_counter_def after_def)

lemma example_world_rand: "\<forall>j. 0 \<le> rand (example_world fs order) j \<and> rand (example_world fs order) j < 1"
  by (simp add: example_world_def)

lemma io_bind_Inr: "m s = (Inr x, s') \<Longrightarrow> io_bind m k s = k x s'"
  by (simp add: io_bind_def)

section \<open>Directories: deletion and reset\<close>

lemma delete_dir_absent: "cwd s d = None \<Longrightarrow> delete_dir d s = (Inr (), s)"
  by (simp add: delete_dir_def path_exists_def)

lemma delete_dir_Dir:
  "cwd s d = Some (Dir m) \<Longrightarrow> delete_dir d s = (Inr (), perform (Rmtree [d]) s)"
  by (simp add: delete_dir_def path_exists_def shutil_rmtree_def)

lemma delete_dir_File:
  "cwd s d = Some (File c) \<Longrightarrow> delete_dir d s = (Inl NotADirectoryError, s)"
  by (simp add: delete_dir_def path_exists_def shutil_rmtree_def)

lemma resolve_removed: "fs d = None \<Longrightarrow> resolve fs (d # rest) = None"
  by (simp add: resolve_def)

lemma make_dir_absent:
  "cwd s d = None \<Longrightarrow> make_dir d s = (Inr (), perform (Mkdir [d]) s)"
  by (simp add: make_dir_def path_mkdir_def)

lemma make_dir_Dir:
  "cwd s d = Some (Dir m) \<Longrightarrow> make_dir d s = (Inr (), perform (Mkdir [d]) s)"
  by (simp add: make_dir_def path_mkdir_def)

lemma reset_dir_absent:
  "cwd s d = None \<Longrightarrow> reset_dir d s = (Inr (), perform (Mkdir [d]) s)"
  by (simp add: reset_dir_def io_bind_def delete_dir_absent make_dir_absent)

lemma reset_dir_Dir:
  "cwd s d = Some (Dir m) \<Longrightarrow>
   reset_dir d s = (Inr (), perform (Mkdir [d]) (perform (Rmtree [d]) s))"
  by (simp add: reset_dir_def io_bind_def delete_dir_Dir make_dir_absent)

lemma reset_dir_File:
  "cwd s d = Some (File c) \<Longrightarrow> reset_dir d s = (Inl NotADirectoryError, s)"
  by (simp add: reset_dir_def io_bind_def delete_dir_File)

lemma reset_dir_ok:
  assumes "\<forall>c. cwd s d \<noteq> Some (File c)"
  shows "\<exists>s1. reset_dir d s = (Inr (), s1) \<and> cwd s1 = (cwd s)(d \<mapsto> Dir Map.empty)"
proof (cases "cwd s d")
  case None
  then show ?thesis by (simp add: reset_dir_absent)
next
  case (Some n)
  with assms obtain m where "cwd s d = Some (Dir m)" by (cases n) auto
  then show ?thesis by (simp add: reset_dir_Dir)
qed

text \<open>
  C8. \<^verbatim>\<open>delete_dir\<close> on a label whose path does not exist returns normally and leaves
  the world as it was. When the path is a directory it returns normally, the entry is
  gone with everything below it (no path through it resolves any more), and every other
  entry of the working directory is as before.
\<close>

theorem delete_dir_destroy:
  "(cwd s (Dirs_value d) = None \<longrightarrow> delete_dir (Dirs_value d) s = (Inr (), s)) \<and>
   (\<forall>m. cwd s (Dirs_value d) = Some (Dir m) \<longrightarrow>
      (\<exists>s'. delete_dir (Dirs_value d) s = (Inr (), s') \<and>
            cwd s' = (cwd s)(Dirs_value d := None) \<and>
            (\<forall>rest. resolve (cwd s') (Dirs_value d # rest) = None)))"
  by (auto simp: delete_dir_absent delete_dir_Dir resolve_removed)

theorem delete_dir_destroy_witness:
  "delete_dir ''aiofiles'' (example_world Map.empty []) = (Inr (), example_world Map.empty []) \<and>
   fst (delete_dir ''aiofiles'' (example_world old_run [])) = Inr () \<and>
   cwd (snd (delete_dir ''aiofiles'' (example_world old_run []))) = Map.empty \<and>
   resolve (cwd (snd (delete_dir ''aiofiles'' (example_world old_run [])))) [''aiofiles'', ''0.txt''] = None \<and>
   resolve old_run [''aiofiles'', ''0.txt''] = Some (File ''OLD'')"
proof -
  have a: "cwd (example_world Map.empty []) (Dirs_value AIOFILES) = None"
    by (simp add: example_world_def)
  have b: "cwd (example_world old_run []) (Dirs_value AIOFILES)
             = Some (Dir (Map.empty(''0.txt'' \<mapsto> File ''OLD'')))"
    by (simp add: example_world_def old_run_def)
  have c: "(cwd (example_world old_run []))(''aiofiles'' := None) = Map.empty"
    by (rule ext) (simp add: example_world_def old_run_def)
  from delete_dir_destroy [of "example_world Map.empty []" AIOFILES] a
  have 1: "delete_dir ''aiofiles'' (example_world Map.empty []) = (Inr (), example_world Map.empty [])"
    by simp
  from delete_dir_destroy [of "example_world old_run []" AIOFILES] b
  obtain s' where s': "delete_dir ''aiofiles'' (example_world old_run []) = (Inr (), s')"
      "cwd s' = (cwd (example_world old_run []))(''aiofiles'' := None)"
      "\<forall>rest. resolve (cwd s') (''aiofiles'' # rest) = None"
    by auto
  have 2: "resolve old_run [''aiofiles'', ''0.txt''] = Some (File ''OLD'')"
    by (simp add: resolve_def old_run_def)
  from 1 2 s' c show ?thesis by simp
qed

text \<open>
  C3 as stated fails: when the label's path is a regular file, \<^verbatim>\<open>Path.exists\<close> holds,
  \<^verbatim>\<open>shutil.rmtree\<close> raises \<^verbatim>\<open>NotADirectoryError\<close> and the reset raises with it.
\<close>

theorem reset_dir_stray_file_raises:
  "reset_dir (Dirs_value AIOFILES) (example_world stray_file [])
     = (Inl NotADirectoryError, example_world stray_file [])"
  by (simp add: reset_dir_File [where c = "''x''"] example_world_def stray_file_def)

text \<open>
  C3 (amended). From any world in which the label's path is absent or a directory,
  \<^verbatim>\<open>delete_dir\<close> followed by \<^verbatim>\<open>make_dir\<close> returns normally and leaves an empty
  directory at the label's path and every other entry as it was; doing it a second
  time returns normally again and leaves the same working directory.
\<close>

theorem reset_dir_idempotent:
  assumes "\<forall>c. cwd s (Dirs_value d) \<noteq> Some (File c)"
  shows "\<exists>s1 s2. reset_dir (Dirs_value d) s = (Inr (), s1) \<and>
           cwd s1 = (cwd s)(Dirs_value d \<mapsto> Dir Map.empty) \<and>
           reset_dir (Dirs_value d) s1 = (Inr (), s2) \<and>
           cwd s2 = cwd s1"
proof -
  from reset_dir_ok [OF assms] obtain s1 where
    s1: "reset_dir (Dirs_value d) s = (Inr (), s1)"
        "cwd s1 = (cwd s)(Dirs_value d \<mapsto> Dir Map.empty)"
    by blast
  then have "\<forall>c. cwd s1 (Dirs_value d) \<noteq> Some (File c)" by simp
  from reset_dir_ok [OF this] obtain s2 where
    s2: "reset_dir (Dirs_value d) s1 = (Inr (), s2)"
        "cwd s2 = (cwd s1)(Dirs_value d \<mapsto> Dir Map.empty)"
    by blast
  from s1 s2 have "cwd s2 = cwd s1" by simp
  with s1 s2 show ?thesis by blast
qed

theorem reset_dir_idempotent_witness:
  "fst (reset_dir ''aiofiles'' (example_world old_run [])) = Inr () \<and>
   cwd (snd (reset_dir ''aiofiles'' (example_world old_run [])))
     = Map.empty(''aiofiles'' \<mapsto> Dir Map.empty) \<and>
   fst (reset_dir ''aiofiles'' (snd (reset_dir ''aiofiles'' (example_world old_run [])))) = Inr () \<and>
   cwd (snd (reset_dir ''aiofiles'' (snd (reset_dir ''aiofiles'' (example_world old_run [])))))
     = Map.empty(''aiofiles'' \<mapsto> Dir Map.empty)"
proof -
  have h: "\<forall>c. cwd (example_world old_run []) (Dirs_value AIOFILES) \<noteq> Some (File c)"
    by (simp add: example_world_def old_run_def)
  have e: "(cwd (example_world old_run []))(''aiofiles'' \<mapsto> Dir Map.empty)
             = Map.empty(''aiofiles'' \<mapsto> Dir Map.empty)"
    by (rule ext) (simp add: example_world_def old_run_def)
  from reset_dir_idempotent [OF h] e show ?thesis by auto
qed

section \<open>The timer\<close>

lemma perf_manager_run:
  assumes "body (after [] 1 s) = (r, after evs k (after [] 1 s))"
  shows "perf_manager fmt6f description body s =
    (r, after (evs @ [Print (description @ '': '' @
                 fmt6f ((clock s (clock_pos s + 1 + k) - clock s (clock_pos s)) * 10 ^ 3) @ '' ms'')])
          (k + 2) s)"
  using assms
  by (simp add: perf_manager_def perf_counter_after py_print_after add.commute)

lemma perf_manager_run0:
  assumes "body (after [] 1 s) = (r, after evs 1 s)"
  shows "perf_manager fmt6f description body s =
    (r, after (evs @ [Print (timing_line fmt6f description
                        (clock s (clock_pos s)) (clock s (Suc (clock_pos s))))]) 2 s)"
  using assms
  by (simp add: perf_manager_def perf_counter_after py_print_after timing_line_def)

lemma timeit_eq: "timeit fmt6f description sync func args = perf_manager fmt6f description (func args)"
  by (simp add: timeit_def)

lemma example_timing_line:
  "timing_line example_fmt description (real k) (real (k + 1)) = description @ '': 1000.000000 ms''"
  by (simp add: timing_line_def example_fmt_def str_int_def str_nat.simps)

text \<open>
  C4. Whatever the wrapped function yields in the world left by the first clock reading,
  a value or an exception, the timed call yields the same. In both cases the timing line
  is recorded after everything the function recorded, with the clock read once more in
  the world the function left, and the working directory is the one the function left.
\<close>

theorem timeit_measure:
  assumes "func args (snd (perf_counter s)) = (r, s2)"
  shows "fst (timeit fmt6f description sync func args s) = r \<and>
         trace (snd (timeit fmt6f description sync func args s))
           = trace s2 @ [Print (timing_line fmt6f description
                                  (clock s (clock_pos s)) (clock s2 (clock_pos s2)))] \<and>
         cwd (snd (timeit fmt6f description sync func args s)) = cwd s2"
  using assms
  by (simp add: timeit_eq perf_manager_def perf_counter_def py_print_def timing_line_def)

theorem timeit_measure_witness:
  "fst (timeit example_fmt ''t'' True (\<lambda>_. make_dir ''d'') () (example_world Map.empty [])) = Inr () \<and>
   trace (snd (timeit example_fmt ''t'' True (\<lambda>_. make_dir ''d'') () (example_world Map.empty [])))
     = [Mkdir [''d''], Print ''t: 1000.000000 ms''] \<and>
   fst (timeit example_fmt ''t'' False (\<lambda>_. shutil_rmtree ''d'') () (example_world Map.empty []))
     = Inl FileNotFoundError \<and>
   trace (snd (timeit example_fmt ''t'' False (\<lambda>_. shutil_rmtree ''d'') () (example_world Map.empty [])))
     = [Print ''t: 1000.000000 ms'']"
proof -
  let ?s = "example_world Map.empty []"
  let ?s1 = "snd (perf_counter ?s)"
  have a: "(\<lambda>_. make_dir ''d'') () ?s1 = (Inr (), perform (Mkdir [''d'']) ?s1)"
    by (simp add: make_dir_def path_mkdir_def perf_counter_def example_world_def)
  have b: "(\<lambda>_. shutil_rmtree ''d'') () ?s1 = (Inl FileNotFoundError, ?s1)"
    by (simp add: shutil_rmtree_def perf_counter_def example_world_def)
  have l: "timing_line example_fmt ''t'' 0 1 = ''t: 1000.000000 ms''"
    by (simp add: timing_line_def example_fmt_def str_int_def str_nat.simps)
  from a b l
    timeit_measure [where func = "\<lambda>_. make_dir ''d''" and args = "()" and s = ?s
      and r = "Inr ()" and ?s2.0 = "perform (Mkdir [''d'']) ?s1"
      and fmt6f = example_fmt and description = "''t''" and sync = True]
    timeit_measure [where func = "\<lambda>_. shutil_rmtree ''d''" and args = "()" and s = ?s
      and r = "Inl FileNotFoundError" and ?s2.0 = ?s1
      and fmt6f = example_fmt and description = "''t''" and sync = False]
  show ?thesis
    by (simp add: perf_counter_def example_world_def)
qed

section \<open>The sequential strategies\<close>

lemma effect_file_events:
  assumes "fs d = Some (Dir m)"
  shows "replay (file_events (d, f) data) fs = fs(d \<mapsto> Dir (m(f \<mapsto> File data)))"
  using assms by (simp add: file_events_def)

lemma with_open_run:
  assumes "cwd s d = Some (Dir m)" and "\<forall>m'. m f \<noteq> Some (Dir m')"
  shows "with_open (d, f) (os_write (d, f) data) s = (Inr (), after (file_events (d, f) data) 0 s)"
proof -
  from assms have o: "os_open (d, f) s = (Inr (), perform (Open [d, f]) s)"
    by (auto simp: os_open_def split: option.splits node.splits)
  show ?thesis
    by (simp add: with_open_def o os_write_def os_close_def perform_after file_events_def)
qed

lemma plain_dir_file_events:
  assumes "plain_dir fs d"
  shows "plain_dir (replay (file_events (d, f) data) fs) d"
proof -
  from assms obtain m where m: "fs d = Some (Dir m)" "\<forall>f m'. m f \<noteq> Some (Dir m')"
    by (auto simp: plain_dir_def)
  from m(1) have "replay (file_events (d, f) data) fs = fs(d \<mapsto> Dir (m(f \<mapsto> File data)))"
    by (rule effect_file_events)
  with m(2) show ?thesis by (simp add: plain_dir_def)
qed

lemma plain_dir_empty: "fs d = Some (Dir Map.empty) \<Longrightarrow> plain_dir fs d"
  by (simp add: plain_dir_def)

lemma plain_dir_after_clock [simp]: "plain_dir (cwd (after [] k s)) d = plain_dir (cwd s) d"
  by simp

lemma four_dirs_empty: "cwd (example_world four_dirs order) (Dirs_value d) = Some (Dir Map.empty)"
  by (cases d) (simp_all add: example_world_def four_dirs_def)

lemma seq_events_Nil [simp]: "seq_events d k [] = []"
  by (simp add: seq_events_def)

lemma seq_events_Cons [simp]:
  "seq_events d k (c # cs) = file_events (txt_name d k) c @ seq_events d (Suc k) cs"
  by (simp add: seq_events_def)

lemma write_loop_run:
  assumes "plain_dir (cwd s) d"
  shows "for_each (\<lambda>(idx, chunk). with_open (txt_name d idx) (os_write (txt_name d idx) chunk))
           (enumerate k chunks) s
         = (Inr (), after (seq_events d k chunks) 0 s)"
  using assms
proof (induction chunks arbitrary: k s)
  case Nil
  then show ?case by simp
next
  case (Cons c cs)
  from Cons.prems obtain m where m: "cwd s d = Some (Dir m)" "\<forall>f m'. m f \<noteq> Some (Dir m')"
    by (auto simp: plain_dir_def)
  let ?p = "txt_name d k"
  have p: "?p = (d, str_nat k @ ''.txt'')" by (simp add: txt_name_def)
  from m have w: "with_open ?p (os_write ?p c) s = (Inr (), after (file_events ?p c) 0 s)"
    unfolding p by (intro with_open_run) auto
  have "plain_dir (cwd (after (file_events ?p c) 0 s)) d"
    unfolding p using Cons.prems by (simp add: plain_dir_file_events)
  from Cons.IH [OF this] w show ?case by simp
qed

lemma seq_loop_timed:
  assumes "plain_dir (cwd s) d"
  shows "perf_manager fmt6f description
           (for_each (\<lambda>(idx, chunk). with_open (txt_name d idx) (os_write (txt_name d idx) chunk))
              (enumerate 0 chunks)) s
         = (Inr (), after (seq_events d 0 chunks @
               [Print (timing_line fmt6f description
                         (clock s (clock_pos s)) (clock s (Suc (clock_pos s))))]) 2 s)"
proof (rule perf_manager_run0)
  have "plain_dir (cwd (after [] 1 s)) d" using assms by simp
  from write_loop_run [OF this, of 0 chunks]
  show "for_each (\<lambda>(idx, chunk). with_open (txt_name d idx) (os_write (txt_name d idx) chunk))
          (enumerate 0 chunks) (after [] 1 s) = (Inr (), after (seq_events d 0 chunks) 1 s)"
    by simp
qed

lemma test_aiofiles_run:
  assumes "plain_dir (cwd s) ''aiofiles''"
  shows "test_aiofiles fmt6f chunks s =
    (Inr (), after (seq_events ''aiofiles'' 0 chunks @
       [Print (timing_line fmt6f ''Dirs.AIOFILES''
                 (clock s (clock_pos s)) (clock s (Suc (clock_pos s))))]) 2 s)"
  using seq_loop_timed [OF assms, of fmt6f "''Dirs.AIOFILES''" chunks]
  by (simp add: test_aiofiles_def timeit_eq Dirs_format_def Let_def)

lemma test_aiofile_run:
  assumes "plain_dir (cwd s) ''aiofile''"
  shows "test_aiofile fmt6f chunks s =
    (Inr (), after (seq_events ''aiofile'' 0 chunks @
       [Print (timing_line fmt6f ''Dirs.AIOFILE ''
                 (clock s (clock_pos s)) (clock s (Suc (clock_pos s))))]) 2 s)"
  using seq_loop_timed [OF assms, of fmt6f "''Dirs.AIOFILE ''" chunks]
  by (simp add: test_aiofile_def timeit_eq Dirs_format_def Let_def)

lemma test_file_run:
  assumes "plain_dir (cwd s) ''file''"
  shows "test_file fmt6f chunks s =
    (Inr (), after (seq_events ''file'' 0 chunks @
       [Print (timing_line fmt6f ''Dirs.FILE    ''
                 (clock s (clock_pos s)) (clock s (Suc (clock_pos s))))]) 2 s)"
  using seq_loop_timed [OF assms, of fmt6f "''Dirs.FILE    ''" chunks]
  by (simp add: test_file_def timeit_eq Dirs_format_def Let_def write_file_def)

lemma seq_events_blocks:
  "seq_events d k chunks =
     concat (map (\<lambda>i. [Open [d, str_nat (k + i) @ ''.txt''],
                        Write [d, str_nat (k + i) @ ''.txt''] (chunks ! i),
                        Close [d, str_nat (k + i) @ ''.txt'']]) [0..<length chunks])"
proof (induction chunks arbitrary: k)
  case Nil
  show ?case by simp
next
  case (Cons c cs)
  have "[0..<length (c # cs)] = 0 # map Suc [0..<length cs]"
    by (simp add: upt_conv_Cons map_Suc_upt del: upt_Suc)
  then show ?case
    by (simp add: Cons.IH [of "Suc k"] file_events_def txt_name_def comp_def del: upt_Suc)
qed

text \<open>
  C5. Run on a directory that holds no directory, \<^verbatim>\<open>test_aiofiles\<close>, \<^verbatim>\<open>test_aiofile\<close>
  and \<^verbatim>\<open>test_file\<close> record exactly the blocks open, write, close of \<open>0.txt\<close>,
  \<open>1.txt\<close>, ... in index order, and then the timing line: the file \<open>i.txt\<close> is closed
  before \<open>(i+1).txt\<close> is opened, and no two writes overlap.
\<close>

theorem sequential_writes_in_index_order:
  assumes "plain_dir (cwd s) (Dirs_value d)"
  shows "(d = AIOFILES \<longrightarrow> (\<exists>line. trace (snd (test_aiofiles fmt6f chunks s)) = trace s @
            concat (map (\<lambda>i. [Open [Dirs_value d, str_nat i @ ''.txt''],
                               Write [Dirs_value d, str_nat i @ ''.txt''] (chunks ! i),
                               Close [Dirs_value d, str_nat i @ ''.txt'']]) [0..<length chunks])
            @ [Print line])) \<and>
         (d = AIOFILE \<longrightarrow> (\<exists>line. trace (snd (test_aiofile fmt6f chunks s)) = trace s @
            concat (map (\<lambda>i. [Open [Dirs_value d, str_nat i @ ''.txt''],
                               Write [Dirs_value d, str_nat i @ ''.txt''] (chunks ! i),
                               Close [Dirs_value d, str_nat i @ ''.txt'']]) [0..<length chunks])
            @ [Print line])) \<and>
         (d = FILE \<longrightarrow> (\<exists>line. trace (snd (test_file fmt6f chunks s)) = trace s @
            concat (map (\<lambda>i. [Open [Dirs_value d, str_nat i @ ''.txt''],
                               Write [Dirs_value d, str_nat i @ ''.txt''] (chunks ! i),
                               Close [Dirs_value d, str_nat i @ ''.txt'']]) [0..<length chunks])
            @ [Print line]))"
proof (intro conjI impI)
  assume d: "d = AIOFILES"
  with assms have "plain_dir (cwd s) ''aiofiles''" by simp
  from test_aiofiles_run [OF this, of fmt6f chunks] show "\<exists>line. trace (snd (test_aiofiles fmt6f chunks s)) = trace s @
            concat (map (\<lambda>i. [Open [Dirs_value d, str_nat i @ ''.txt''],
                               Write [Dirs_value d, str_nat i @ ''.txt''] (chunks ! i),
                               Close [Dirs_value d, str_nat i @ ''.txt'']]) [0..<length chunks])
            @ [Print line]"
    by (simp add: d seq_events_blocks [of _ 0, simplified])
next
  assume d: "d = AIOFILE"
  with assms have "plain_dir (cwd s) ''aiofile''" by simp
  from test_aiofile_run [OF this, of fmt6f chunks] show "\<exists>line. trace (snd (test_aiofile fmt6f chunks s)) = trace s @
            concat (map (\<lambda>i. [Open [Dirs_value d, str_nat i @ ''.txt''],
                               Write [Dirs_value d, str_nat i @ ''.txt''] (chunks ! i),
                               Close [Dirs_value d, str_nat i @ ''.txt'']]) [0..<length chunks])
            @ [Print line]"
    by (simp add: d seq_events_blocks [of _ 0, simplified])
next
  assume d: "d = FILE"
  with assms have "plain_dir (cwd s) ''file''" by simp
  from test_file_run [OF this, of fmt6f chunks] show "\<exists>line. trace (snd (test_file fmt6f chunks s)) = trace s @
            concat (map (\<lambda>i. [Open [Dirs_value d, str_nat i @ ''.txt''],
                               Write [Dirs_value d, str_nat i @ ''.txt''] (chunks ! i),
                               Close [Dirs_value d, str_nat i @ ''.txt'']]) [0..<length chunks])
            @ [Print line]"
    by (simp add: d seq_events_blocks [of _ 0, simplified])
qed

theorem sequential_writes_in_index_order_witness:
  "plain_dir (cwd (example_world four_dirs [])) ''file'' \<and>
   (\<exists>line. trace (snd (test_file example_fmt [''AB'', ''C9''] (example_world four_dirs [])))
      = [Open [''file'', ''0.txt''], Write [''file'', ''0.txt''] ''AB'', Close [''file'', ''0.txt''],
         Open [''file'', ''1.txt''], Write [''file'', ''1.txt''] ''C9'', Close [''file'', ''1.txt''],
         Print line])"
proof -
  have h: "plain_dir (cwd (example_world four_dirs [])) (Dirs_value FILE)"
    using four_dirs_empty [of "[]" FILE] by (simp add: plain_dir_def)
  have t: "trace (example_world four_dirs []) = []" by (simp add: example_world_def)
  from h sequential_writes_in_index_order [OF h, of example_fmt "[''AB'', ''C9'']"] t
  show ?thesis by (simp add: str_nat.simps)
qed

section \<open>The worker pool\<close>

lemma length_pool_tasks [simp]: "length (pool_tasks d chunks) = length chunks"
  by (simp add: pool_tasks_def)

lemma nth_pool_tasks:
  "i < length chunks \<Longrightarrow> pool_tasks d chunks ! i = ((d, str_nat i @ ''.txt''), chunks ! i)"
  by (simp add: pool_tasks_def nth_enumerate_eq txt_name_def)

lemma pool_inv_start:
  assumes "cwd s d = Some (Dir m0)"
  shows "pool_inv d chunks m0 s ((replicate (length chunks) Pending, None), s)"
proof -
  have c: "cwd s = (cwd s)(d \<mapsto> Dir m0)" using assms by (auto simp: fun_eq_iff)
  show ?thesis
    unfolding pool_inv_def prod.case
  proof (intro conjI exI [of _ "[]"] exI [of _ m0])
    show "cwd s = (cwd s)(d \<mapsto> Dir m0)" by (rule c)
  qed simp_all
qed

lemma pool_step_inv:
  assumes plain: "\<forall>f m'. m0 f \<noteq> Some (Dir m')"
    and inv: "pool_inv d chunks m0 s ps"
  shows "pool_inv d chunks m0 s (pool_step (pool_tasks d chunks) i ps)"
proof (cases "i < length chunks")
  case False
  with inv show ?thesis by (simp add: pool_step_def split: prod.splits)
next
  case True
  obtain sts err s' where ps: "ps = ((sts, err), s')" by (metis surj_pair)
  from inv obtain evs m where
    len: "length sts = length chunks" and err: "err = None"
    and nofail: "\<forall>i<length chunks. \<forall>e. sts ! i \<noteq> Failed e"
    and s': "s' = after evs 0 s"
    and evs: "\<forall>e\<in>set evs. \<exists>i<length chunks. e \<in> set (file_events (txt_name d i) (chunks ! i))"
    and got: "\<forall>i<length chunks.
              set (take (rank (sts ! i)) (file_events (txt_name d i) (chunks ! i))) \<subseteq> set evs"
    and cwd: "cwd s' = (cwd s)(d \<mapsto> Dir m)"
    and ent: "\<forall>i<length chunks.
              m (str_nat i @ ''.txt'') = entry_of (sts ! i) (m0 (str_nat i @ ''.txt'')) (chunks ! i)"
    and rest: "\<forall>f. (\<forall>i<length chunks. f \<noteq> str_nat i @ ''.txt'') \<longrightarrow> m f = m0 f"
    unfolding ps pool_inv_def by auto
  let ?f = "str_nat i @ ''.txt''"
  let ?c = "chunks ! i"
  have task: "pool_tasks d chunks ! i = ((d, ?f), ?c)" using True by (rule nth_pool_tasks)
  have dir: "cwd s' d = Some (Dir m)" using cwd by simp
  have step_ok: "pool_inv d chunks m0 s ((sts[i := st'], None), perform e s')"
    if e: "e \<in> set (file_events (txt_name d i) ?c)"
      and fx: "effect e (cwd s') = (cwd s')(d \<mapsto> Dir (m(?f := v)))"
      and v: "v = entry_of st' (m0 ?f) ?c"
      and st': "\<forall>e. st' \<noteq> Failed e"
      and rk: "set (take (rank st') (file_events (txt_name d i) ?c))
                 \<subseteq> insert e (set (take (rank (sts ! i)) (file_events (txt_name d i) ?c)))"
    for st' e v
  proof -
    have 1: "perform e s' = after (evs @ [e]) 0 s" by (simp add: s' perform_after)
    have 2: "\<forall>x\<in>set (evs @ [e]). \<exists>i<length chunks. x \<in> set (file_events (txt_name d i) (chunks ! i))"
      using evs e True by auto
    have 3: "cwd (perform e s') = (cwd s)(d \<mapsto> Dir (m(?f := v)))"
      using fx by (simp add: cwd)
    have 4: "\<forall>j<length chunks. (m(?f := v)) (str_nat j @ ''.txt'')
               = entry_of (sts[i := st'] ! j) (m0 (str_nat j @ ''.txt'')) (chunks ! j)"
      using ent v len True by (auto simp: nth_list_update)
    have 5: "\<forall>f. (\<forall>i<length chunks. f \<noteq> str_nat i @ ''.txt'') \<longrightarrow> (m(?f := v)) f = m0 f"
      using rest True by auto
    have 6: "\<forall>j<length chunks. \<forall>e. sts[i := st'] ! j \<noteq> Failed e"
      using nofail st' len True by (auto simp: nth_list_update split: if_splits)
    have 7: "\<forall>j<length chunks.
              set (take (rank (sts[i := st'] ! j)) (file_events (txt_name d j) (chunks ! j)))
                \<subseteq> set (evs @ [e])"
    proof (intro allI impI)
      fix j assume j: "j < length chunks"
      show "set (take (rank (sts[i := st'] ! j)) (file_events (txt_name d j) (chunks ! j)))
              \<subseteq> set (evs @ [e])"
      proof (cases "j = i")
        case True
        with got j rk len show ?thesis by auto
      next
        case False
        with got j len show ?thesis by auto
      qed
    qed
    show ?thesis
      unfolding pool_inv_def prod.case
      by (intro conjI exI [of _ "evs @ [e]"] exI [of _ "m(?f := v)"] 1 2 3 4 5 6 7)
         (simp_all add: len)
  qed
  show ?thesis
  proof (cases "sts ! i")
    case Pending
    from ent True Pending have mi: "m ?f = m0 ?f" by simp
    with plain have nd: "\<forall>m'. m ?f \<noteq> Some (Dir m')" by simp
    from dir nd have o: "os_open (d, ?f) s' = (Inr (), perform (Open [d, ?f]) s')"
      by (auto simp: os_open_def split: option.splits node.splits)
    have "pool_inv d chunks m0 s ((sts[i := IsOpen], None), perform (Open [d, ?f]) s')"
      by (rule step_ok [where v = "Some (File '''')"])
         (simp_all add: file_events_def txt_name_def dir Pending)
    then show ?thesis
      using True by (simp add: ps err pool_step_def task task_step_def Pending o)
  next
    case IsOpen
    from ent True IsOpen have mi: "m ?f = Some (File '''')" by simp
    have "pool_inv d chunks m0 s ((sts[i := Wrote], None), perform (Write [d, ?f] ?c) s')"
      by (rule step_ok [where v = "Some (File ?c)"])
         (simp_all add: file_events_def txt_name_def dir mi IsOpen)
    then show ?thesis
      using True by (simp add: ps err pool_step_def task task_step_def IsOpen os_write_def)
  next
    case Wrote
    from ent True Wrote have mi: "m ?f = Some (File ?c)" by simp
    have "m(?f := Some (File ?c)) = m" using mi by (auto simp: fun_eq_iff)
    then have "pool_inv d chunks m0 s ((sts[i := Finished], None), perform (Close [d, ?f]) s')"
      by (intro step_ok [where v = "Some (File ?c)"])
         (simp_all add: file_events_def txt_name_def dir cwd Wrote)
    then show ?thesis
      using True by (simp add: ps err pool_step_def task task_step_def Wrote os_close_def)
  next
    case Finished
    have "sts[i := Finished] = sts" using Finished by (metis list_update_id)
    with inv show ?thesis
      using True by (simp add: ps err pool_step_def task task_step_def Finished)
  next
    case (Failed e)
    with nofail True show ?thesis by simp
  qed
qed

lemma advance_thrice: "\<forall>e. st \<noteq> Failed e \<Longrightarrow> advance (advance (advance st)) = Finished"
  by (cases st) simp_all

lemma pool_step_states:
  assumes plain: "\<forall>f m'. m0 f \<noteq> Some (Dir m')"
    and inv: "pool_inv d chunks m0 s ps"
    and i: "i < length chunks"
  shows "fst (fst (pool_step (pool_tasks d chunks) i ps)) = (fst (fst ps))[i := advance (fst (fst ps) ! i)]"
proof -
  obtain sts err s' where ps: "ps = ((sts, err), s')" by (metis surj_pair)
  from inv obtain m where
    cwd: "cwd s' = (cwd s)(d \<mapsto> Dir m)"
    and ent: "\<forall>i<length chunks.
              m (str_nat i @ ''.txt'') = entry_of (sts ! i) (m0 (str_nat i @ ''.txt'')) (chunks ! i)"
    unfolding ps pool_inv_def by auto
  let ?f = "str_nat i @ ''.txt''"
  have task: "pool_tasks d chunks ! i = ((d, ?f), chunks ! i)" using i by (rule nth_pool_tasks)
  have dir: "cwd s' d = Some (Dir m)" using cwd by simp
  show ?thesis
  proof (cases "sts ! i")
    case Pending
    from ent i Pending have "m ?f = m0 ?f" by simp
    with plain have "\<forall>m'. m ?f \<noteq> Some (Dir m')" by simp
    with dir have "os_open (d, ?f) s' = (Inr (), perform (Open [d, ?f]) s')"
      by (auto simp: os_open_def split: option.splits node.splits)
    then show ?thesis
      using i by (simp add: ps pool_step_def task task_step_def Pending)
  qed (use i in \<open>simp_all add: ps pool_step_def task task_step_def split: prod.splits\<close>)
qed

lemma pool_fold_inv:
  assumes "\<forall>f m'. m0 f \<noteq> Some (Dir m')" and "pool_inv d chunks m0 s ps"
  shows "pool_inv d chunks m0 s (fold (pool_step (pool_tasks d chunks)) order ps)"
  using assms(2)
  by (induction order arbitrary: ps) (simp_all add: pool_step_inv [OF assms(1)])

lemma pool_inv_length: "pool_inv d chunks m0 s ps \<Longrightarrow> length (fst (fst ps)) = length chunks"
  by (auto simp: pool_inv_def split: prod.splits)

lemma pool_inv_nofail:
  "pool_inv d chunks m0 s ps \<Longrightarrow> i < length chunks \<Longrightarrow> fst (fst ps) ! i \<noteq> Failed e"
  by (auto simp: pool_inv_def split: prod.splits)

lemma pool_step_keeps_Finished:
  assumes plain: "\<forall>f m'. m0 f \<noteq> Some (Dir m')"
    and inv: "pool_inv d chunks m0 s ps"
    and j: "j < length chunks" and fin: "fst (fst ps) ! j = Finished"
  shows "fst (fst (pool_step (pool_tasks d chunks) i ps)) ! j = Finished"
proof (cases "i < length chunks")
  case True
  from pool_step_states [OF plain inv True] pool_inv_length [OF inv] j fin True
  show ?thesis by (cases "i = j") simp_all
next
  case False
  with fin show ?thesis by (simp add: pool_step_def split: prod.splits)
qed

lemma pool_fold_keeps_Finished:
  assumes plain: "\<forall>f m'. m0 f \<noteq> Some (Dir m')"
    and inv: "pool_inv d chunks m0 s ps"
    and j: "j < length chunks" and fin: "fst (fst ps) ! j = Finished"
  shows "fst (fst (fold (pool_step (pool_tasks d chunks)) order ps)) ! j = Finished"
  using inv fin
proof (induction order arbitrary: ps)
  case Nil
  then show ?case by simp
next
  case (Cons i order)
  from pool_step_inv [OF plain Cons.prems(1)]
       pool_step_keeps_Finished [OF plain Cons.prems(1) j Cons.prems(2)]
  show ?case by (simp add: Cons.IH)
qed

lemma pool_three_steps:
  assumes plain: "\<forall>f m'. m0 f \<noteq> Some (Dir m')"
    and inv: "pool_inv d chunks m0 s ps"
    and i: "i < length chunks"
  shows "fst (fst (fold (pool_step (pool_tasks d chunks)) [i, i, i] ps)) ! i = Finished"
proof -
  let ?step = "pool_step (pool_tasks d chunks) i"
  have inv1: "pool_inv d chunks m0 s (?step ps)" by (rule pool_step_inv [OF plain inv])
  have inv2: "pool_inv d chunks m0 s (?step (?step ps))" by (rule pool_step_inv [OF plain inv1])
  have l0: "i < length (fst (fst ps))" using pool_inv_length [OF inv] i by simp
  have l1: "i < length (fst (fst (?step ps)))" using pool_inv_length [OF inv1] i by simp
  have l2: "i < length (fst (fst (?step (?step ps))))" using pool_inv_length [OF inv2] i by simp
  have "fst (fst (?step (?step (?step ps)))) ! i = advance (advance (advance (fst (fst ps) ! i)))"
    using l0 l1 l2
    by (simp add: pool_step_states [OF plain inv2 i] pool_step_states [OF plain inv1 i]
        pool_step_states [OF plain inv i])
  also have "\<dots> = Finished"
    using pool_inv_nofail [OF inv i] by (intro advance_thrice) simp
  finally show ?thesis by simp
qed

lemma pool_drain:
  assumes plain: "\<forall>f m'. m0 f \<noteq> Some (Dir m')"
    and inv: "pool_inv d chunks m0 s ps"
    and js: "\<forall>j\<in>set js. j < length chunks"
  shows "\<forall>j\<in>set js.
           fst (fst (fold (pool_step (pool_tasks d chunks)) (concat (map (\<lambda>i. [i, i, i]) js)) ps)) ! j
             = Finished"
  using inv js
proof (induction js arbitrary: ps)
  case Nil
  then show ?case by simp
next
  case (Cons i js)
  let ?ps = "fold (pool_step (pool_tasks d chunks)) [i, i, i] ps"
  let ?rest = "concat (map (\<lambda>i. [i, i, i]) js)"
  have i: "i < length chunks" using Cons.prems(2) by simp
  have inv': "pool_inv d chunks m0 s ?ps" by (rule pool_fold_inv [OF plain Cons.prems(1)])
  have fin: "fst (fst ?ps) ! i = Finished" by (rule pool_three_steps [OF plain Cons.prems(1) i])
  have "fst (fst (fold (pool_step (pool_tasks d chunks)) ?rest ?ps)) ! i = Finished"
    by (rule pool_fold_keeps_Finished [OF plain inv' i fin])
  moreover have "\<forall>j\<in>set js. fst (fst (fold (pool_step (pool_tasks d chunks)) ?rest ?ps)) ! j = Finished"
    using Cons.prems(2) by (intro Cons.IH [OF inv']) simp
  ultimately show ?case by simp
qed

text \<open>What \<open>gather\<close> leaves, whatever the scheduler chose: every task has run to its end.\<close>

lemma gather_run:
  assumes dir: "cwd s d = Some (Dir m0)" and plain: "\<forall>f m'. m0 f \<noteq> Some (Dir m')"
  shows "\<exists>evs m. gather (pool_tasks d chunks) s = (Inr (), after evs 0 s) \<and>
           (\<forall>e\<in>set evs. \<exists>i<length chunks. e \<in> set (file_events (txt_name d i) (chunks ! i))) \<and>
           (\<forall>i<length chunks. set (file_events (txt_name d i) (chunks ! i)) \<subseteq> set evs) \<and>
           replay evs (cwd s) = (cwd s)(d \<mapsto> Dir m) \<and>
           (\<forall>i<length chunks. m (str_nat i @ ''.txt'') = Some (File (chunks ! i))) \<and>
           (\<forall>f. (\<forall>i<length chunks. f \<noteq> str_nat i @ ''.txt'') \<longrightarrow> m f = m0 f)"
proof -
  let ?tasks = "pool_tasks d chunks"
  let ?start = "((replicate (length chunks) Pending, None), s)"
  let ?drain = "concat (map (\<lambda>i. [i, i, i]) [0..<length chunks])"
  let ?mid = "fold (pool_step ?tasks) (sched s) ?start"
  let ?fin = "fold (pool_step ?tasks) ?drain ?mid"
  have inv0: "pool_inv d chunks m0 s ?start" by (rule pool_inv_start [OF dir])
  have inv1: "pool_inv d chunks m0 s ?mid" by (rule pool_fold_inv [OF plain inv0])
  have inv2: "pool_inv d chunks m0 s ?fin" by (rule pool_fold_inv [OF plain inv1])
  have all_fin: "\<forall>j\<in>set [0..<length chunks]. fst (fst ?fin) ! j = Finished"
    by (rule pool_drain [OF plain inv1]) simp
  obtain sts err s' where fin: "?fin = ((sts, err), s')" by (metis surj_pair)
  from inv2 obtain evs m where
    err: "err = None" and s': "s' = after evs 0 s"
    and evs: "\<forall>e\<in>set evs. \<exists>i<length chunks. e \<in> set (file_events (txt_name d i) (chunks ! i))"
    and got: "\<forall>i<length chunks.
              set (take (rank (sts ! i)) (file_events (txt_name d i) (chunks ! i))) \<subseteq> set evs"
    and cwd: "cwd s' = (cwd s)(d \<mapsto> Dir m)"
    and ent: "\<forall>i<length chunks.
              m (str_nat i @ ''.txt'') = entry_of (sts ! i) (m0 (str_nat i @ ''.txt'')) (chunks ! i)"
    and rest: "\<forall>f. (\<forall>i<length chunks. f \<noteq> str_nat i @ ''.txt'') \<longrightarrow> m f = m0 f"
    unfolding fin pool_inv_def by auto
  from all_fin fin have allf: "\<forall>i<length chunks. sts ! i = Finished" by simp
  from got allf have got': "\<forall>i<length chunks. set (file_events (txt_name d i) (chunks ! i)) \<subseteq> set evs"
    by (simp add: file_events_def txt_name_def)
  from allf ent have ent': "\<forall>i<length chunks. m (str_nat i @ ''.txt'') = Some (File (chunks ! i))"
    by simp
  have g: "gather ?tasks s = (Inr (), after evs 0 s)"
    using fin err s' by (simp add: gather_def)
  have r: "replay evs (cwd s) = (cwd s)(d \<mapsto> Dir m)" using cwd s' by simp
  from g evs got' r ent' rest show ?thesis by blast
qed

lemma test_executor_run:
  assumes dir: "cwd s ''executor'' = Some (Dir m0)" and plain: "\<forall>f m'. m0 f \<noteq> Some (Dir m')"
  shows "\<exists>evs m. test_executor fmt6f chunks s =
      (Inr (), after (evs @ [Print (timing_line fmt6f ''Dirs.EXECUTOR''
                 (clock s (clock_pos s)) (clock s (Suc (clock_pos s))))]) 2 s) \<and>
      (\<forall>e\<in>set evs. \<exists>i<length chunks.
          e \<in> set (file_events (txt_name ''executor'' i) (chunks ! i))) \<and>
      (\<forall>i<length chunks. set (file_events (txt_name ''executor'' i) (chunks ! i)) \<subseteq> set evs) \<and>
      replay evs (cwd s) = (cwd s)(''executor'' \<mapsto> Dir m) \<and>
      (\<forall>i<length chunks. m (str_nat i @ ''.txt'') = Some (File (chunks ! i))) \<and>
      (\<forall>f. (\<forall>i<length chunks. f \<noteq> str_nat i @ ''.txt'') \<longrightarrow> m f = m0 f)"
proof -
  have dir': "cwd (after [] 1 s) ''executor'' = Some (Dir m0)" using dir by simp
  from gather_run [OF dir' plain, of chunks] obtain evs m where
    g: "gather (pool_tasks ''executor'' chunks) (after [] 1 s) = (Inr (), after evs 1 s)"
    and evs: "\<forall>e\<in>set evs. \<exists>i<length chunks.
          e \<in> set (file_events (txt_name ''executor'' i) (chunks ! i))"
    and got: "\<forall>i<length chunks. set (file_events (txt_name ''executor'' i) (chunks ! i)) \<subseteq> set evs"
    and r: "replay evs (cwd s) = (cwd s)(''executor'' \<mapsto> Dir m)"
    and m: "\<forall>i<length chunks. m (str_nat i @ ''.txt'') = Some (File (chunks ! i))"
       "\<forall>f. (\<forall>i<length chunks. f \<noteq> str_nat i @ ''.txt'') \<longrightarrow> m f = m0 f"
    by auto
  have "test_executor fmt6f chunks s =
      (Inr (), after (evs @ [Print (timing_line fmt6f ''Dirs.EXECUTOR''
                 (clock s (clock_pos s)) (clock s (Suc (clock_pos s))))]) 2 s)"
    using g perf_manager_run0 [of "gather (pool_tasks ''executor'' chunks)" s "Inr ()" evs fmt6f "''Dirs.EXECUTOR''"]
    by (simp add: test_executor_def timeit_eq Dirs_format_def Let_def pool_tasks_def)
  with evs got r m show ?thesis by blast
qed

section \<open>The files the strategies write\<close>

lemma chunk_files_None:
  "(\<forall>i<length chunks. f \<noteq> str_nat i @ ''.txt'') \<Longrightarrow> chunk_files chunks f = None"
  by (force simp: chunk_files_def map_of_eq_None_iff in_set_enumerate_eq)

lemma chunk_files_Some:
  assumes "i < length chunks"
  shows "chunk_files chunks (str_nat i @ ''.txt'') = Some (File (chunks ! i))"
proof -
  let ?xs = "map (\<lambda>(idx, chunk). (str_nat idx @ ''.txt'', File chunk)) (enumerate 0 chunks)"
  have "map fst ?xs = map ((\<lambda>i. str_nat i @ ''.txt'') \<circ> fst) (enumerate 0 chunks)"
    by (simp add: comp_def case_prod_unfold)
  also have "\<dots> = map (\<lambda>i. str_nat i @ ''.txt'') (map fst (enumerate 0 chunks))"
    by (simp only: map_map)
  finally have "map fst ?xs = map (\<lambda>i. str_nat i @ ''.txt'') [0..<length chunks]"
    by (simp only: map_fst_enumerate add_0)
  moreover have "distinct (map (\<lambda>i. str_nat i @ ''.txt'') [0..<length chunks])"
    by (simp add: distinct_map inj_on_def)
  ultimately have d: "distinct (map fst ?xs)" by simp
  have "(str_nat i @ ''.txt'', File (chunks ! i)) \<in> set ?xs"
    using assms by (force simp: in_set_enumerate_eq)
  with d show ?thesis unfolding chunk_files_def by (rule map_of_is_SomeI)
qed

lemma dom_chunk_files:
  "dom (chunk_files chunks) = (\<lambda>i. str_nat i @ ''.txt'') ` {..<length chunks}"
proof (rule set_eqI)
  fix f
  show "f \<in> dom (chunk_files chunks) \<longleftrightarrow> f \<in> (\<lambda>i. str_nat i @ ''.txt'') ` {..<length chunks}"
  proof (cases "\<exists>i<length chunks. f = str_nat i @ ''.txt''")
    case True
    then show ?thesis using chunk_files_Some by auto
  next
    case False
    then have "chunk_files chunks f = None" by (intro chunk_files_None) blast
    with False show ?thesis by auto
  qed
qed

lemma chunk_files_unique:
  assumes "\<forall>i<length chunks. m (str_nat i @ ''.txt'') = Some (File (chunks ! i))"
    and "\<forall>f. (\<forall>i<length chunks. f \<noteq> str_nat i @ ''.txt'') \<longrightarrow> m f = None"
  shows "m = chunk_files chunks"
proof (rule ext)
  fix f
  show "m f = chunk_files chunks f"
  proof (cases "\<exists>i<length chunks. f = str_nat i @ ''.txt''")
    case True
    then show ?thesis using assms(1) chunk_files_Some by auto
  next
    case False
    then have "chunk_files chunks f = None" by (intro chunk_files_None) blast
    with False assms(2) show ?thesis by auto
  qed
qed

lemma seq_events_replay:
  assumes "fs d = Some (Dir m0)"
  shows "\<exists>m. replay (seq_events d k chunks) fs = fs(d \<mapsto> Dir m) \<and>
           (\<forall>i<length chunks. m (str_nat (k + i) @ ''.txt'') = Some (File (chunks ! i))) \<and>
           (\<forall>f. (\<forall>i<length chunks. f \<noteq> str_nat (k + i) @ ''.txt'') \<longrightarrow> m f = m0 f)"
  using assms
proof (induction chunks arbitrary: k fs m0)
  case Nil
  then have "fs(d \<mapsto> Dir m0) = fs" by (rule fun_upd_idem)
  then show ?case by (intro exI [of _ m0]) simp
next
  case (Cons c cs)
  let ?f = "str_nat k @ ''.txt''"
  let ?fs = "fs(d \<mapsto> Dir (m0(?f \<mapsto> File c)))"
  have step: "replay (file_events (txt_name d k) c) fs = ?fs"
    unfolding txt_name_def using Cons.prems by (rule effect_file_events)
  have "?fs d = Some (Dir (m0(?f \<mapsto> File c)))" by simp
  with Cons.IH [of ?fs "m0(?f \<mapsto> File c)" "Suc k"] obtain m where
    m: "replay (seq_events d (Suc k) cs) ?fs = ?fs(d \<mapsto> Dir m)"
       "\<forall>i<length cs. m (str_nat (Suc k + i) @ ''.txt'') = Some (File (cs ! i))"
       "\<forall>f. (\<forall>i<length cs. f \<noteq> str_nat (Suc k + i) @ ''.txt'') \<longrightarrow> m f = (m0(?f \<mapsto> File c)) f"
    by blast
  have 1: "replay (seq_events d k (c # cs)) fs = fs(d \<mapsto> Dir m)"
    by (simp add: step m(1))
  have 2: "\<forall>i<length (c # cs). m (str_nat (k + i) @ ''.txt'') = Some (File ((c # cs) ! i))"
  proof (intro allI impI)
    fix i assume i: "i < length (c # cs)"
    show "m (str_nat (k + i) @ ''.txt'') = Some (File ((c # cs) ! i))"
    proof (cases i)
      case 0
      have "m ?f = (m0(?f \<mapsto> File c)) ?f" using m(3) by simp
      with 0 show ?thesis by simp
    next
      case (Suc j)
      with i m(2) show ?thesis by simp
    qed
  qed
  have 3: "\<forall>f. (\<forall>i<length (c # cs). f \<noteq> str_nat (k + i) @ ''.txt'') \<longrightarrow> m f = m0 f"
  proof (intro allI impI)
    fix f assume f: "\<forall>i<length (c # cs). f \<noteq> str_nat (k + i) @ ''.txt''"
    then have "f \<noteq> ?f" by fastforce
    moreover from f have "\<forall>i<length cs. f \<noteq> str_nat (Suc k + i) @ ''.txt''" by fastforce
    ultimately show "m f = m0 f" using m(3) by simp
  qed
  from 1 2 3 show ?case by blast
qed

lemma seq_events_replay_empty:
  assumes "fs d = Some (Dir Map.empty)"
  shows "replay (seq_events d 0 chunks) fs = fs(d \<mapsto> Dir (chunk_files chunks))"
proof -
  from assms seq_events_replay [of fs d Map.empty 0 chunks] obtain m where
    m: "replay (seq_events d 0 chunks) fs = fs(d \<mapsto> Dir m)"
       "\<forall>i<length chunks. m (str_nat i @ ''.txt'') = Some (File (chunks ! i))"
       "\<forall>f. (\<forall>i<length chunks. f \<noteq> str_nat i @ ''.txt'') \<longrightarrow> m f = None"
    by auto
  from m(2,3) have "m = chunk_files chunks" by (rule chunk_files_unique)
  with m(1) show ?thesis by simp
qed

lemma seq_events_files:
  "e \<in> set (seq_events d k chunks) \<Longrightarrow>
   \<exists>i<length chunks. e \<in> set (file_events (txt_name d (k + i)) (chunks ! i))"
proof (induction chunks arbitrary: k)
  case Nil
  then show ?case by simp
next
  case (Cons c cs)
  from Cons.prems consider "e \<in> set (file_events (txt_name d k) c)"
    | "e \<in> set (seq_events d (Suc k) cs)" by auto
  then show ?case
  proof cases
    case 1
    then show ?thesis by (intro exI [of _ 0]) simp
  next
    case 2
    from Cons.IH [OF this] obtain i where "i < length cs"
      "e \<in> set (file_events (txt_name d (Suc k + i)) (cs ! i))" by blast
    then show ?thesis by (intro exI [of _ "Suc i"]) simp
  qed
qed

text \<open>
  C1. Run on empty directories, each of the four strategies returns normally and leaves
  in its own directory exactly the files \<open>chunk_files chunks\<close> and every other entry of
  the working directory as it was; the names of these files are \<open>0.txt\<close> to
  \<open>(N-1).txt\<close> for \<open>N\<close> chunks, and \<open>i.txt\<close> holds the \<open>i\<close>-th chunk. For the worker
  pool this holds for every choice of the scheduler.
\<close>

theorem strategies_write_same_files:
  assumes "\<forall>d. cwd s (Dirs_value d) = Some (Dir Map.empty)"
  shows "(\<exists>s'. test_aiofiles fmt6f chunks s = (Inr (), s') \<and>
              cwd s' = (cwd s)(Dirs_value AIOFILES \<mapsto> Dir (chunk_files chunks))) \<and>
         (\<exists>s'. test_aiofile fmt6f chunks s = (Inr (), s') \<and>
              cwd s' = (cwd s)(Dirs_value AIOFILE \<mapsto> Dir (chunk_files chunks))) \<and>
         (\<exists>s'. test_file fmt6f chunks s = (Inr (), s') \<and>
              cwd s' = (cwd s)(Dirs_value FILE \<mapsto> Dir (chunk_files chunks))) \<and>
         (\<exists>s'. test_executor fmt6f chunks s = (Inr (), s') \<and>
              cwd s' = (cwd s)(Dirs_value EXECUTOR \<mapsto> Dir (chunk_files chunks))) \<and>
         dom (chunk_files chunks) = (\<lambda>i. str_nat i @ ''.txt'') ` {..<length chunks} \<and>
         (\<forall>i<length chunks. chunk_files chunks (str_nat i @ ''.txt'') = Some (File (chunks ! i)))"
proof (intro conjI)
  from assms [rule_format, of AIOFILES] have e: "cwd s ''aiofiles'' = Some (Dir Map.empty)" by simp
  have "plain_dir (cwd s) ''aiofiles''" using e by (simp add: plain_dir_def)
  from test_aiofiles_run [OF this, of fmt6f chunks]
  show "\<exists>s'. test_aiofiles fmt6f chunks s = (Inr (), s') \<and>
              cwd s' = (cwd s)(Dirs_value AIOFILES \<mapsto> Dir (chunk_files chunks))"
    by (simp add: seq_events_replay_empty [of "cwd s", OF e])
next
  from assms [rule_format, of AIOFILE] have e: "cwd s ''aiofile'' = Some (Dir Map.empty)" by simp
  have "plain_dir (cwd s) ''aiofile''" using e by (simp add: plain_dir_def)
  from test_aiofile_run [OF this, of fmt6f chunks]
  show "\<exists>s'. test_aiofile fmt6f chunks s = (Inr (), s') \<and>
              cwd s' = (cwd s)(Dirs_value AIOFILE \<mapsto> Dir (chunk_files chunks))"
    by (simp add: seq_events_replay_empty [of "cwd s", OF e])
next
  from assms [rule_format, of FILE] have e: "cwd s ''file'' = Some (Dir Map.empty)" by simp
  have "plain_dir (cwd s) ''file''" using e by (simp add: plain_dir_def)
  from test_file_run [OF this, of fmt6f chunks]
  show "\<exists>s'. test_file fmt6f chunks s = (Inr (), s') \<and>
              cwd s' = (cwd s)(Dirs_value FILE \<mapsto> Dir (chunk_files chunks))"
    by (simp add: seq_events_replay_empty [of "cwd s", OF e])
next
  from assms [rule_format, of EXECUTOR] have e: "cwd s ''executor'' = Some (Dir Map.empty)" by simp
  have "\<forall>f m'. Map.empty f \<noteq> Some (Dir m')" by simp
  from e this test_executor_run [of s Map.empty fmt6f chunks] obtain evs m where
    r: "test_executor fmt6f chunks s =
      (Inr (), after (evs @ [Print (timing_line fmt6f ''Dirs.EXECUTOR''
                 (clock s (clock_pos s)) (clock s (Suc (clock_pos s))))]) 2 s)"
    and c: "replay evs (cwd s) = (cwd s)(''executor'' \<mapsto> Dir m)"
    and m: "\<forall>i<length chunks. m (str_nat i @ ''.txt'') = Some (File (chunks ! i))"
       "\<forall>f. (\<forall>i<length chunks. f \<noteq> str_nat i @ ''.txt'') \<longrightarrow> m f = None"
    by auto
  from m have "m = chunk_files chunks" by (rule chunk_files_unique)
  with r c show "\<exists>s'. test_executor fmt6f chunks s = (Inr (), s') \<and>
              cwd s' = (cwd s)(Dirs_value EXECUTOR \<mapsto> Dir (chunk_files chunks))"
    by simp
next
  show "dom (chunk_files chunks) = (\<lambda>i. str_nat i @ ''.txt'') ` {..<length chunks}"
    by (rule dom_chunk_files)
next
  show "\<forall>i<length chunks. chunk_files chunks (str_nat i @ ''.txt'') = Some (File (chunks ! i))"
    by (simp add: chunk_files_Some)
qed

theorem strategies_write_same_files_witness:
  "fst (test_executor example_fmt [''AB'', ''C9''] (example_world four_dirs [1, 0, 0, 1])) = Inr () \<and>
   cwd (snd (test_executor example_fmt [''AB'', ''C9''] (example_world four_dirs [1, 0, 0, 1]))) ''executor''
     = Some (Dir (chunk_files [''AB'', ''C9''])) \<and>
   fst (test_file example_fmt [''AB'', ''C9''] (example_world four_dirs [1, 0, 0, 1])) = Inr () \<and>
   cwd (snd (test_file example_fmt [''AB'', ''C9''] (example_world four_dirs [1, 0, 0, 1]))) ''file''
     = Some (Dir (chunk_files [''AB'', ''C9''])) \<and>
   cwd (snd (test_aiofiles example_fmt [''AB'', ''C9''] (example_world four_dirs [1, 0, 0, 1]))) ''aiofiles''
     = Some (Dir (chunk_files [''AB'', ''C9''])) \<and>
   cwd (snd (test_aiofile example_fmt [''AB'', ''C9''] (example_world four_dirs [1, 0, 0, 1]))) ''aiofile''
     = Some (Dir (chunk_files [''AB'', ''C9''])) \<and>
   chunk_files [''AB'', ''C9''] ''0.txt'' = Some (File ''AB'') \<and>
   chunk_files [''AB'', ''C9''] ''1.txt'' = Some (File ''C9'') \<and>
   chunk_files [''AB'', ''C9''] ''2.txt'' = None"
proof -
  have h: "\<forall>d. cwd (example_world four_dirs [1, 0, 0, 1]) (Dirs_value d) = Some (Dir Map.empty)"
    by (simp add: four_dirs_empty)
  have c: "chunk_files [''AB'', ''C9''] ''0.txt'' = Some (File ''AB'')"
    "chunk_files [''AB'', ''C9''] ''1.txt'' = Some (File ''C9'')"
    "chunk_files [''AB'', ''C9''] ''2.txt'' = None"
    by (simp_all add: chunk_files_def str_nat.simps)
  from strategies_write_same_files [OF h, of example_fmt "[''AB'', ''C9'']"] c
  show ?thesis by auto
qed

section \<open>Random chunks\<close>

lemma random_draw:
  assumes u: "0 \<le> rand s (rand_pos s)" "rand s (rand_pos s) < 1" and ne: "population \<noteq> []"
  shows "(case random_random s of
            (u, s1) \<Rightarrow> (py_index population \<lfloor>u * real (length population)\<rfloor>, s1))
         = (Inr (population ! nat \<lfloor>rand s (rand_pos s) * real (length population)\<rfloor>),
            s\<lparr>rand_pos := Suc (rand_pos s)\<rparr>) \<and>
         nat \<lfloor>rand s (rand_pos s) * real (length population)\<rfloor> < length population"
proof -
  let ?u = "rand s (rand_pos s)"
  let ?n = "real (length population)"
  have n: "0 < ?n" using ne by simp
  have lo: "0 \<le> ?u * ?n" using u(1) n by simp
  have "?u * ?n < ?n" using u(2) n by simp
  then have hi: "\<lfloor>?u * ?n\<rfloor> < int (length population)" by (simp add: floor_less_iff)
  have lo': "0 \<le> \<lfloor>?u * ?n\<rfloor>" using lo by simp
  from lo' hi have "nat \<lfloor>?u * ?n\<rfloor> < length population" by linarith
  with lo' hi show ?thesis
    by (simp add: random_random_def py_index_def)
qed

lemma list_comp_inv:
  assumes step: "\<And>s. P s \<Longrightarrow> \<exists>x. m s = (Inr x, upd s) \<and> Q x \<and> P (upd s)"
    and start: "P s"
  shows "\<exists>xs. list_comp k m s = (Inr xs, (upd ^^ k) s) \<and> length xs = k \<and> (\<forall>x\<in>set xs. Q x) \<and>
           P ((upd ^^ k) s)"
  using start
proof (induction k arbitrary: s)
  case 0
  then show ?case by simp
next
  case (Suc k)
  from step [OF Suc.prems] obtain x where x: "m s = (Inr x, upd s)" "Q x" "P (upd s)" by blast
  from Suc.IH [OF x(3)] obtain xs where
    xs: "list_comp k m (upd s) = (Inr xs, (upd ^^ k) (upd s))" "length xs = k" "\<forall>x\<in>set xs. Q x"
        "P ((upd ^^ k) (upd s))"
    by blast
  have "list_comp (Suc k) m s = (Inr (x # xs), (upd ^^ Suc k) s)"
    using x(1) xs(1) by (simp add: funpow_swap1)
  with x(2) xs show ?case by (auto simp: funpow_swap1)
qed

lemma rand_pos_funpow:
  "((\<lambda>s. s\<lparr>rand_pos := rand_pos s + j\<rparr>) ^^ k) s = s\<lparr>rand_pos := rand_pos s + k * j\<rparr>"
  by (induction k arbitrary: s) (simp_all add: funpow_swap1 add.assoc add.commute)

lemma rand_pos_funpow_Suc:
  "((\<lambda>s. s\<lparr>rand_pos := Suc (rand_pos s)\<rparr>) ^^ k) s = s\<lparr>rand_pos := rand_pos s + k\<rparr>"
  by (induction k arbitrary: s) (simp_all add: funpow_swap1)

lemma random_string_run:
  assumes "\<forall>j. 0 \<le> rand s j \<and> rand s j < 1" and "chars \<noteq> []"
  shows "\<exists>str. random_string count chars s = (Inr str, s\<lparr>rand_pos := rand_pos s + nat count\<rparr>) \<and>
           length str = nat count \<and> set str \<subseteq> set chars"
proof -
  let ?P = "\<lambda>s'. rand s' = rand s"
  let ?upd = "\<lambda>s. s\<lparr>rand_pos := Suc (rand_pos s)\<rparr>"
  let ?m = "\<lambda>s. case random_random s of
              (u, s1) \<Rightarrow> (py_index chars \<lfloor>u * real (length chars)\<rfloor>, s1)"
  have step: "\<exists>x. ?m s' = (Inr x, ?upd s') \<and> x \<in> set chars \<and> ?P (?upd s')" if "?P s'" for s'
  proof -
    have "0 \<le> rand s' (rand_pos s')" "rand s' (rand_pos s') < 1" using that assms(1) by simp_all
    from random_draw [OF this assms(2)] show ?thesis using that by simp
  qed
  have "?P s" by simp
  from list_comp_inv [of ?P ?m ?upd "\<lambda>x. x \<in> set chars", OF step this, of "nat count"]
  show ?thesis
    by (auto simp: random_string_def random_choices_def rand_pos_funpow_Suc)
qed

lemma generate_random_chunks_run:
  assumes "\<forall>j. 0 \<le> rand s j \<and> rand s j < 1"
  shows "\<exists>chunks. generate_random_chunks n chunk_size s
            = (Inr chunks, s\<lparr>rand_pos := rand_pos s + nat n * nat chunk_size\<rparr>) \<and>
           length chunks = nat n \<and>
           (\<forall>c\<in>set chunks. length c = nat chunk_size \<and> set c \<subseteq> set (ascii_uppercase @ digits))"
proof -
  let ?P = "\<lambda>s'. rand s' = rand s"
  let ?upd = "\<lambda>s. s\<lparr>rand_pos := rand_pos s + nat chunk_size\<rparr>"
  let ?chars = "ascii_uppercase @ digits"
  let ?Q = "\<lambda>c. length c = nat chunk_size \<and> set c \<subseteq> set ?chars"
  have ne: "?chars \<noteq> []" by (simp add: ascii_uppercase_def)
  have step: "\<exists>x. random_string chunk_size ?chars s' = (Inr x, ?upd s') \<and> ?Q x \<and> ?P (?upd s')"
    if "?P s'" for s'
  proof -
    have "\<forall>j. 0 \<le> rand s' j \<and> rand s' j < 1" using that assms by simp
    from random_string_run [OF this ne, of chunk_size] show ?thesis using that by auto
  qed
  have "?P s" by simp
  from list_comp_inv [of ?P "random_string chunk_size ?chars" ?upd ?Q, OF step this, of "nat n"]
  show ?thesis
    by (auto simp: generate_random_chunks_def rand_pos_funpow)
qed

text \<open>
  C2 as stated fails in its last clause: the characters are drawn from the process-wide
  generator, which is shared state, and every draw advances it.
\<close>

theorem generate_random_chunks_advances_generator:
  "fst (generate_random_chunks 1 1 (example_world Map.empty [])) = Inr [''S''] \<and>
   rand_pos (example_world Map.empty []) = 0 \<and>
   rand_pos (snd (generate_random_chunks 1 1 (example_world Map.empty []))) = 1"
  by (simp add: generate_random_chunks_def random_string_def random_choices_def
      random_random_def py_index_def example_world_def ascii_uppercase_def digits_def)

text \<open>
  C2 (amended). When \<^verbatim>\<open>random.random()\<close> yields values in \<open>[0, 1)\<close>,
  \<^verbatim>\<open>generate_random_chunks\<close> returns normally a list of \<open>n\<close> strings of \<open>chunk_size\<close>
  characters each, all from the upper-case letters and the digits (none for a negative
  number). Nothing is recorded and the working directory is untouched; the only part of
  the world that changes is the generator, which has advanced by one draw per character.
\<close>

theorem generate_random_chunks_ok:
  assumes "\<forall>j. 0 \<le> rand s j \<and> rand s j < 1"
  shows "\<exists>chunks. generate_random_chunks n chunk_size s
            = (Inr chunks, s\<lparr>rand_pos := rand_pos s + nat n * nat chunk_size\<rparr>) \<and>
           length chunks = nat n \<and>
           (\<forall>c\<in>set chunks. length c = nat chunk_size \<and> set c \<subseteq> set (ascii_uppercase @ digits))"
  using assms by (rule generate_random_chunks_run)

theorem generate_random_chunks_ok_witness:
  "generate_random_chunks 2 3 (example_world Map.empty [])
     = (Inr [''SSS'', ''SSS''], (example_world Map.empty [])\<lparr>rand_pos := 6\<rparr>) \<and>
   set ''SSS'' \<subseteq> set (ascii_uppercase @ digits)"
proof -
  have e: "fst (generate_random_chunks 2 3 (example_world Map.empty [])) = Inr [''SSS'', ''SSS'']"
    by (simp add: generate_random_chunks_def random_string_def random_choices_def
      random_random_def py_index_def example_world_def ascii_uppercase_def digits_def
      numeral_2_eq_2 numeral_3_eq_3)
  from generate_random_chunks_ok [OF example_world_rand, of 2 3 Map.empty "[]"] obtain chunks where
    c: "generate_random_chunks 2 3 (example_world Map.empty [])
          = (Inr chunks, (example_world Map.empty [])
               \<lparr>rand_pos := rand_pos (example_world Map.empty []) + nat 2 * nat 3\<rparr>)"
       "\<forall>c\<in>set chunks. length c = nat 3 \<and> set c \<subseteq> set (ascii_uppercase @ digits)"
    by blast
  from c(1) e have "chunks = [''SSS'', ''SSS'']" by simp
  with c show ?thesis by (simp add: example_world_def)
qed

section \<open>The harness\<close>

lemma reset_dir_after:
  assumes "\<forall>c. cwd s d \<noteq> Some (File c)"
  shows "reset_dir d s
           = (Inr (), after ((if cwd s d = None then [] else [Rmtree [d]]) @ [Mkdir [d]]) 0 s)"
proof (cases "cwd s d")
  case None
  then show ?thesis by (simp add: reset_dir_absent perform_after)
next
  case (Some n)
  with assms obtain m where "cwd s d = Some (Dir m)" by (cases n) auto
  then show ?thesis by (simp add: reset_dir_Dir perform_after)
qed

lemma replay_reset_one:
  assumes "\<forall>c. fs d \<noteq> Some (File c)"
  shows "replay ((if fs d = None then [] else [Rmtree [d]]) @ [Mkdir [d]]) fs = fs(d \<mapsto> Dir Map.empty)"
  by (simp add: fun_eq_iff)

lemma reset_all_run:
  assumes "\<forall>d c. cwd s (Dirs_value d) \<noteq> Some (File c)"
  shows "for_each (\<lambda>dirname. reset_dir (Dirs_value dirname)) Dirs_members s
           = (Inr (), after (reset_events (cwd s)) 0 s)"
    and "replay (reset_events (cwd s)) (cwd s)
           = (cwd s)(''aiofiles'' \<mapsto> Dir Map.empty, ''aiofile'' \<mapsto> Dir Map.empty,
                     ''file'' \<mapsto> Dir Map.empty, ''executor'' \<mapsto> Dir Map.empty)"
proof -
  let ?E = "\<lambda>d. (if cwd s d = None then [] else [Rmtree [d]]) @ [Mkdir [d]]"
  have nf: "\<forall>c. cwd s ''aiofiles'' \<noteq> Some (File c)" "\<forall>c. cwd s ''aiofile'' \<noteq> Some (File c)"
    "\<forall>c. cwd s ''file'' \<noteq> Some (File c)" "\<forall>c. cwd s ''executor'' \<noteq> Some (File c)"
    using assms [rule_format, of AIOFILES] assms [rule_format, of AIOFILE]
      assms [rule_format, of FILE] assms [rule_format, of EXECUTOR] by simp_all
  let ?s1 = "after (?E ''aiofiles'') 0 s"
  have c1: "cwd ?s1 = (cwd s)(''aiofiles'' \<mapsto> Dir Map.empty)"
    using replay_reset_one [of "cwd s" "''aiofiles''"] nf(1) by simp
  have r1: "reset_dir ''aiofiles'' s = (Inr (), ?s1)" using nf(1) by (rule reset_dir_after)
  let ?s2 = "after (?E ''aiofile'') 0 ?s1"
  have e2: "(if cwd ?s1 ''aiofile'' = None then [] else [Rmtree [''aiofile'']]) @ [Mkdir [''aiofile'']]
              = ?E ''aiofile''" by (simp only: c1) simp
  have "\<forall>c. cwd ?s1 ''aiofile'' \<noteq> Some (File c)" using nf(2) by (simp only: c1) simp
  from reset_dir_after [OF this] have r2: "reset_dir ''aiofile'' ?s1 = (Inr (), ?s2)"
    by (simp only: e2)
  have c2: "cwd ?s2 = (cwd s)(''aiofiles'' \<mapsto> Dir Map.empty, ''aiofile'' \<mapsto> Dir Map.empty)"
    using nf(2) by (simp add: fun_eq_iff)
  let ?s3 = "after (?E ''file'') 0 ?s2"
  have e3: "(if cwd ?s2 ''file'' = None then [] else [Rmtree [''file'']]) @ [Mkdir [''file'']]
              = ?E ''file''" by (simp only: c2) simp
  have "\<forall>c. cwd ?s2 ''file'' \<noteq> Some (File c)" using nf(3) by (simp only: c2) simp
  from reset_dir_after [OF this] have r3: "reset_dir ''file'' ?s2 = (Inr (), ?s3)"
    by (simp only: e3)
  have c3: "cwd ?s3 = (cwd s)(''aiofiles'' \<mapsto> Dir Map.empty, ''aiofile'' \<mapsto> Dir Map.empty,
                               ''file'' \<mapsto> Dir Map.empty)"
    using nf(2,3) by (simp add: fun_eq_iff)
  let ?s4 = "after (?E ''executor'') 0 ?s3"
  have e4: "(if cwd ?s3 ''executor'' = None then [] else [Rmtree [''executor'']]) @ [Mkdir [''executor'']]
              = ?E ''executor''" by (simp only: c3) simp
  have "\<forall>c. cwd ?s3 ''executor'' \<noteq> Some (File c)" using nf(4) by (simp only: c3) simp
  from reset_dir_after [OF this] have r4: "reset_dir ''executor'' ?s3 = (Inr (), ?s4)"
    by (simp only: e4)
  have c4: "cwd ?s4 = (cwd s)(''aiofiles'' \<mapsto> Dir Map.empty, ''aiofile'' \<mapsto> Dir Map.empty,
                     ''file'' \<mapsto> Dir Map.empty, ''executor'' \<mapsto> Dir Map.empty)"
    using nf(2,3,4) by (simp add: fun_eq_iff)
  have s4: "?s4 = after (reset_events (cwd s)) 0 s"
    by (simp add: reset_events_def Dirs_members_def)
  show "for_each (\<lambda>dirname. reset_dir (Dirs_value dirname)) Dirs_members s
           = (Inr (), after (reset_events (cwd s)) 0 s)"
    using r1 r2 r3 r4 s4 by (simp add: Dirs_members_def)
  from s4 have "cwd (after (reset_events (cwd s)) 0 s) = cwd ?s4" by (simp only:)
  then have "replay (reset_events (cwd s)) (cwd s) = cwd ?s4" by (simp only: after_selectors)
  with c4 show "replay (reset_events (cwd s)) (cwd s)
           = (cwd s)(''aiofiles'' \<mapsto> Dir Map.empty, ''aiofile'' \<mapsto> Dir Map.empty,
                     ''file'' \<mapsto> Dir Map.empty, ''executor'' \<mapsto> Dir Map.empty)"
    by (simp only:)
qed

lemma reset_leaves_dirs:
  assumes "\<forall>d c. cwd (s::world) (Dirs_value d) \<noteq> Some (File c)"
  shows "replay (reset_events (cwd s)) (cwd s) (Dirs_value d) = Some (Dir Map.empty)"
  unfolding reset_all_run(2) [OF assms] by (cases d) simp_all

lemma delete_dir_after:
  "cwd s d = Some (Dir m) \<Longrightarrow> delete_dir d s = (Inr (), after [Rmtree [d]] 0 s)"
  by (simp add: delete_dir_Dir perform_after)

lemma cleanup_run:
  assumes "cwd s ''aiofiles'' = Some (Dir ma)" "cwd s ''aiofile'' = Some (Dir mb)"
    "cwd s ''file'' = Some (Dir mc)" "cwd s ''executor'' = Some (Dir md)"
  shows "for_each (\<lambda>dirname. delete_dir (Dirs_value dirname)) Dirs_members s
           = (Inr (), after cleanup_events 0 s)"
proof -
  let ?s1 = "after [Rmtree [''aiofiles'']] 0 s"
  let ?s2 = "after [Rmtree [''aiofile'']] 0 ?s1"
  let ?s3 = "after [Rmtree [''file'']] 0 ?s2"
  have r1: "delete_dir ''aiofiles'' s = (Inr (), ?s1)" using assms(1) by (rule delete_dir_after)
  have "cwd ?s1 ''aiofile'' = Some (Dir mb)" using assms(2) by simp
  then have r2: "delete_dir ''aiofile'' ?s1 = (Inr (), ?s2)" by (rule delete_dir_after)
  have "cwd ?s2 ''file'' = Some (Dir mc)" using assms(3) by simp
  then have r3: "delete_dir ''file'' ?s2 = (Inr (), ?s3)" by (rule delete_dir_after)
  have "cwd ?s3 ''executor'' = Some (Dir md)" using assms(4) by simp
  then have r4: "delete_dir ''executor'' ?s3 = (Inr (), after [Rmtree [''executor'']] 0 ?s3)"
    by (rule delete_dir_after)
  from r1 r2 r3 r4 show ?thesis
    by (simp add: Dirs_members_def cleanup_events_def)
qed

lemma test_run:
  assumes nofile: "\<forall>d c. cwd s (Dirs_value d) \<noteq> Some (File c)"
  shows "\<exists>ed. test fmt6f chunks s
            = (Inr (), after (reset_events (cwd s) @ run_events fmt6f chunks s ed @ cleanup_events) 8 s) \<and>
          (\<forall>e\<in>set ed. \<exists>i<length chunks.
              e \<in> set (file_events (txt_name ''executor'' i) (chunks ! i))) \<and>
          (\<forall>i<length chunks. set (file_events (txt_name ''executor'' i) (chunks ! i)) \<subseteq> set ed) \<and>
          replay (reset_events (cwd s) @ run_events fmt6f chunks s ed) (cwd s)
            = (cwd s)(''aiofiles'' \<mapsto> Dir (chunk_files chunks), ''aiofile'' \<mapsto> Dir (chunk_files chunks),
                      ''file'' \<mapsto> Dir (chunk_files chunks), ''executor'' \<mapsto> Dir (chunk_files chunks))"
proof -
  let ?CF = "Dir (chunk_files chunks)"
  let ?E = "Dir Map.empty"
  let ?R = "reset_events (cwd s)"
  let ?PA = "Print (timing_line fmt6f ''Dirs.AIOFILES'' (clock s (clock_pos s)) (clock s (clock_pos s + 1)))"
  let ?PB = "Print (timing_line fmt6f ''Dirs.AIOFILE '' (clock s (clock_pos s + 2)) (clock s (clock_pos s + 3)))"
  let ?PD = "Print (timing_line fmt6f ''Dirs.EXECUTOR'' (clock s (clock_pos s + 4)) (clock s (clock_pos s + 5)))"
  let ?PC = "Print (timing_line fmt6f ''Dirs.FILE    '' (clock s (clock_pos s + 6)) (clock s (clock_pos s + 7)))"
  let ?SA = "seq_events ''aiofiles'' 0 chunks"
  let ?SB = "seq_events ''aiofile'' 0 chunks"
  let ?SC = "seq_events ''file'' 0 chunks"
  let ?F1 = "(cwd s)(''aiofiles'' \<mapsto> ?E, ''aiofile'' \<mapsto> ?E, ''file'' \<mapsto> ?E, ''executor'' \<mapsto> ?E)"
  let ?F2 = "(cwd s)(''aiofiles'' \<mapsto> ?CF, ''aiofile'' \<mapsto> ?E, ''file'' \<mapsto> ?E, ''executor'' \<mapsto> ?E)"
  let ?F3 = "(cwd s)(''aiofiles'' \<mapsto> ?CF, ''aiofile'' \<mapsto> ?CF, ''file'' \<mapsto> ?E, ''executor'' \<mapsto> ?E)"
  let ?F4 = "(cwd s)(''aiofiles'' \<mapsto> ?CF, ''aiofile'' \<mapsto> ?CF, ''file'' \<mapsto> ?E, ''executor'' \<mapsto> ?CF)"
  let ?F5 = "(cwd s)(''aiofiles'' \<mapsto> ?CF, ''aiofile'' \<mapsto> ?CF, ''file'' \<mapsto> ?CF, ''executor'' \<mapsto> ?CF)"
  \<comment> \<open>reset\<close>
  let ?s1 = "after ?R 0 s"
  have r1: "for_each (\<lambda>dirname. reset_dir (Dirs_value dirname)) Dirs_members s = (Inr (), ?s1)"
    by (rule reset_all_run(1) [OF nofile])
  have c1: "cwd ?s1 = ?F1" using reset_all_run(2) [OF nofile] by simp
  \<comment> \<open>aiofiles\<close>
  let ?s2 = "after (?SA @ [?PA]) 2 ?s1"
  have "plain_dir (cwd ?s1) ''aiofiles''" by (simp only: c1) (simp add: plain_dir_def)
  from test_aiofiles_run [OF this, of fmt6f chunks]
  have r2: "test_aiofiles fmt6f chunks ?s1 = (Inr (), ?s2)" by simp
  have "replay ?SA ?F1 = ?F1(''aiofiles'' \<mapsto> ?CF)"
    by (rule seq_events_replay_empty) simp
  then have "replay (?SA @ [?PA]) (cwd ?s1) = ?F2"
    by (simp only: c1 replay_Print) (simp add: fun_eq_iff)
  then have c2: "cwd ?s2 = ?F2" by (simp only: after_selectors)
  \<comment> \<open>aiofile\<close>
  let ?s3 = "after (?SB @ [?PB]) 2 ?s2"
  have "plain_dir (cwd ?s2) ''aiofile''" by (simp only: c2) (simp add: plain_dir_def)
  from test_aiofile_run [OF this, of fmt6f chunks]
  have r3: "test_aiofile fmt6f chunks ?s2 = (Inr (), ?s3)" by (simp add: numeral_eq_Suc)
  have "replay ?SB ?F2 = ?F2(''aiofile'' \<mapsto> ?CF)"
    by (rule seq_events_replay_empty) simp
  then have "replay (?SB @ [?PB]) (cwd ?s2) = ?F3"
    by (simp only: c2 replay_Print) (simp add: fun_eq_iff)
  then have c3: "cwd ?s3 = ?F3" by (simp only: after_selectors)
  \<comment> \<open>executor\<close>
  have d3: "cwd ?s3 ''executor'' = Some (Dir Map.empty)" by (simp only: c3) simp
  have "\<forall>f m'. Map.empty f \<noteq> Some (Dir m')" by simp
  with d3 test_executor_run [of ?s3 Map.empty fmt6f chunks] obtain ed m where
    r4': "test_executor fmt6f chunks ?s3 =
      (Inr (), after (ed @ [Print (timing_line fmt6f ''Dirs.EXECUTOR''
                 (clock ?s3 (clock_pos ?s3)) (clock ?s3 (Suc (clock_pos ?s3))))]) 2 ?s3)"
    and ed1: "\<forall>e\<in>set ed. \<exists>i<length chunks.
          e \<in> set (file_events (txt_name ''executor'' i) (chunks ! i))"
    and ed2: "\<forall>i<length chunks. set (file_events (txt_name ''executor'' i) (chunks ! i)) \<subseteq> set ed"
    and rp: "replay ed (cwd ?s3) = (cwd ?s3)(''executor'' \<mapsto> Dir m)"
    and m: "\<forall>i<length chunks. m (str_nat i @ ''.txt'') = Some (File (chunks ! i))"
       "\<forall>f. (\<forall>i<length chunks. f \<noteq> str_nat i @ ''.txt'') \<longrightarrow> m f = None"
    by blast
  from m have mcf: "m = chunk_files chunks" by (rule chunk_files_unique)
  let ?s4 = "after (ed @ [?PD]) 2 ?s3"
  from r4' have r4: "test_executor fmt6f chunks ?s3 = (Inr (), ?s4)"
    by (simp add: numeral_eq_Suc)
  from rp have "replay (ed @ [?PD]) (cwd ?s3) = ?F4"
    by (simp only: c3 replay_Print mcf) (simp add: fun_eq_iff)
  then have c4: "cwd ?s4 = ?F4" by (simp only: after_selectors)
  \<comment> \<open>file\<close>
  let ?s5 = "after (?SC @ [?PC]) 2 ?s4"
  have "plain_dir (cwd ?s4) ''file''" by (simp only: c4) (simp add: plain_dir_def)
  from test_file_run [OF this, of fmt6f chunks]
  have r5: "test_file fmt6f chunks ?s4 = (Inr (), ?s5)" by (simp add: numeral_eq_Suc)
  have "replay ?SC ?F4 = ?F4(''file'' \<mapsto> ?CF)"
    by (rule seq_events_replay_empty) simp
  then have "replay (?SC @ [?PC]) (cwd ?s4) = ?F5"
    by (simp only: c4 replay_Print) (simp add: fun_eq_iff)
  then have c5: "cwd ?s5 = ?F5" by (simp only: after_selectors)
  \<comment> \<open>cleanup\<close>
  have "cwd ?s5 ''aiofiles'' = Some ?CF" "cwd ?s5 ''aiofile'' = Some ?CF"
    "cwd ?s5 ''file'' = Some ?CF" "cwd ?s5 ''executor'' = Some ?CF"
    by (simp_all only: c5) simp_all
  then have r6: "for_each (\<lambda>dirname. delete_dir (Dirs_value dirname)) Dirs_members ?s5
           = (Inr (), after cleanup_events 0 ?s5)"
    by (rule cleanup_run)
  have s5: "?s5 = after (?R @ run_events fmt6f chunks s ed) 8 s"
    by (simp add: run_events_def)
  have "test fmt6f chunks s = (Inr (), after cleanup_events 0 ?s5)"
    unfolding test_def
    by (simp only: io_bind_def r1 r2 r3 r4 r5 r6 prod.case sum.case)
  then have "test fmt6f chunks s
      = (Inr (), after cleanup_events 0 (after (?R @ run_events fmt6f chunks s ed) 8 s))"
    by (simp only: s5)
  then have t: "test fmt6f chunks s
      = (Inr (), after (?R @ run_events fmt6f chunks s ed @ cleanup_events) 8 s)"
    by simp
  have "cwd (after (?R @ run_events fmt6f chunks s ed) 8 s) = ?F5"
    using c5 by (simp only: s5)
  then have f: "replay (?R @ run_events fmt6f chunks s ed) (cwd s) = ?F5"
    by (simp only: after_selectors)
  from t ed1 ed2 f show ?thesis by blast
qed

subsection \<open>Operations of a run\<close>

lemma printed_append [simp]: "printed (xs @ ys) = printed xs @ printed ys"
  by (induction xs rule: printed.induct) simp_all

lemma printed_file_events [simp]: "printed (file_events p data) = []"
  by (cases p) (simp add: file_events_def)

lemma printed_seq_events [simp]: "printed (seq_events d k chunks) = []"
  by (induction chunks arbitrary: k) simp_all

lemma printed_none:
  "\<forall>e\<in>set evs. \<forall>line. e \<noteq> Print line \<Longrightarrow> printed evs = []"
  by (induction evs rule: printed.induct) simp_all

lemma file_events_kinds:
  "e \<in> set (file_events p data) \<Longrightarrow>
   (\<forall>q. e \<noteq> Rmtree q) \<and> (\<forall>q. e \<noteq> Mkdir q) \<and> (\<forall>line. e \<noteq> Print line)"
  by (cases p) (auto simp: file_events_def)

lemma seq_events_kinds:
  "e \<in> set (seq_events d k chunks) \<Longrightarrow>
   (\<forall>q. e \<noteq> Rmtree q) \<and> (\<forall>q. e \<noteq> Mkdir q) \<and> (\<forall>line. e \<noteq> Print line)"
  using seq_events_files [of e d k chunks] file_events_kinds by blast

lemma printed_pool:
  assumes "\<forall>e\<in>set ed. \<exists>i<length chunks. e \<in> set (file_events (txt_name d i) (chunks ! i))"
  shows "printed ed = []"
  using assms file_events_kinds by (intro printed_none) blast

lemma printed_reset_events [simp]: "printed (reset_events fs) = []"
  by (simp add: reset_events_def Dirs_members_def)

lemma printed_cleanup_events [simp]: "printed cleanup_events = []"
  by (simp add: cleanup_events_def Dirs_members_def)

lemma printed_run_events:
  assumes "\<forall>e\<in>set ed. \<exists>i<length chunks. e \<in> set (file_events (txt_name d i) (chunks ! i))"
  shows "printed (run_events fmt6f chunks s ed) =
     [timing_line fmt6f ''Dirs.AIOFILES'' (clock s (clock_pos s)) (clock s (clock_pos s + 1)),
      timing_line fmt6f ''Dirs.AIOFILE '' (clock s (clock_pos s + 2)) (clock s (clock_pos s + 3)),
      timing_line fmt6f ''Dirs.EXECUTOR'' (clock s (clock_pos s + 4)) (clock s (clock_pos s + 5)),
      timing_line fmt6f ''Dirs.FILE    '' (clock s (clock_pos s + 6)) (clock s (clock_pos s + 7))]"
  by (simp add: run_events_def printed_pool [OF assms])

lemma run_events_kinds:
  assumes ed: "\<forall>e\<in>set ed. \<exists>i<length chunks. e \<in> set (file_events (txt_name d i) (chunks ! i))"
    and e: "e \<in> set (run_events fmt6f chunks s ed)"
  shows "(\<forall>q. e \<noteq> Rmtree q) \<and> (\<forall>q. e \<noteq> Mkdir q)"
proof -
  from e consider "e \<in> set (seq_events ''aiofiles'' 0 chunks)"
    | "e \<in> set (seq_events ''aiofile'' 0 chunks)"
    | "e \<in> set (seq_events ''file'' 0 chunks)"
    | "e \<in> set ed" | line where "e = Print line"
    by (auto simp: run_events_def)
  then show ?thesis
  proof cases
    case 4
    with ed file_events_kinds show ?thesis by blast
  qed (use seq_events_kinds in auto)
qed

lemma seq_events_has:
  "i < length chunks \<Longrightarrow>
   set (file_events (txt_name d (k + i)) (chunks ! i)) \<subseteq> set (seq_events d k chunks)"
proof (induction chunks arbitrary: k i)
  case Nil
  then show ?case by simp
next
  case (Cons c cs)
  show ?case
  proof (cases i)
    case 0
    then show ?thesis by simp
  next
    case (Suc j)
    with Cons.prems have "j < length cs" by simp
    from Cons.IH [OF this, of "Suc k"] Suc show ?thesis by auto
  qed
qed

lemma Write_in_file_events:
  "Write [d, str_nat i @ ''.txt''] data \<in> set (file_events (txt_name d i) data)"
  by (simp add: file_events_def txt_name_def)

lemma Write_file_events_data:
  "Write p x \<in> set (file_events q data) \<Longrightarrow> x = data"
  by (cases q) (auto simp: file_events_def)

lemma run_events_writes:
  assumes ed: "\<forall>i<length chunks. set (file_events (txt_name ''executor'' i) (chunks ! i)) \<subseteq> set ed"
    and i: "i < length chunks"
  shows "Write [Dirs_value d, str_nat i @ ''.txt''] (chunks ! i) \<in> set (run_events fmt6f chunks s ed)"
proof -
  have w: "Write [Dirs_value d, str_nat i @ ''.txt''] (chunks ! i)
             \<in> set (file_events (txt_name (Dirs_value d) i) (chunks ! i))"
    by (rule Write_in_file_events)
  have sq: "set (file_events (txt_name x i) (chunks ! i)) \<subseteq> set (seq_events x 0 chunks)" for x
    using seq_events_has [OF i, of x 0] by simp
  show ?thesis
  proof (cases d)
    case AIOFILES
    with w sq [of "''aiofiles''"] show ?thesis by (auto simp: run_events_def)
  next
    case AIOFILE
    with w sq [of "''aiofile''"] show ?thesis by (auto simp: run_events_def)
  next
    case FILE
    with w sq [of "''file''"] show ?thesis by (auto simp: run_events_def)
  next
    case EXECUTOR
    with w ed i show ?thesis by (auto simp: run_events_def)
  qed
qed

lemma run_events_write_data:
  assumes ed: "\<forall>e\<in>set ed. \<exists>i<length chunks. e \<in> set (file_events (txt_name d i) (chunks ! i))"
    and w: "Write p x \<in> set (run_events fmt6f chunks s ed)"
  shows "x \<in> set chunks"
proof -
  have fe: "x \<in> set chunks" if "i < length chunks" "Write p x \<in> set (file_events q (chunks ! i))"
    for q i
    using Write_file_events_data [OF that(2)] that(1) by simp
  have sq: "x \<in> set chunks" if a: "Write p x \<in> set (seq_events dd 0 chunks)" for dd
  proof -
    from seq_events_files [OF a] obtain i where
      "i < length chunks" "Write p x \<in> set (file_events (txt_name dd (0 + i)) (chunks ! i))"
      by blast
    then show ?thesis by (rule fe)
  qed
  from w consider "Write p x \<in> set (seq_events ''aiofiles'' 0 chunks)"
    | "Write p x \<in> set (seq_events ''aiofile'' 0 chunks)"
    | "Write p x \<in> set (seq_events ''file'' 0 chunks)"
    | "Write p x \<in> set ed"
    by (auto simp: run_events_def)
  then show ?thesis
  proof cases
    case 1
    then show ?thesis by (rule sq)
  next
    case 2
    then show ?thesis by (rule sq)
  next
    case 3
    then show ?thesis by (rule sq)
  next
    case 4
    with ed obtain i where
      "i < length chunks" "Write p x \<in> set (file_events (txt_name d i) (chunks ! i))"
      by blast
    then show ?thesis by (rule fe)
  qed
qed

lemma effect_at:
  "effect e fs d = fs d \<or> (\<exists>p. e = Rmtree p) \<or> (\<exists>m'. effect e fs d = Some (Dir m'))"
proof (cases "(e, fs)" rule: effect.cases)
  case (1 x fs')
  then show ?thesis by simp
next
  case (2 x fs')
  then show ?thesis by (simp split: option.splits)
next
  case (3 x f fs')
  then show ?thesis by (simp split: option.splits node.splits)
next
  case (4 x f data fs')
  then show ?thesis by (simp split: option.splits node.splits)
qed simp_all

lemma effect_keeps_dir:
  assumes "fs d = Some (Dir m)" and "\<forall>p. e \<noteq> Rmtree p"
  shows "\<exists>m'. effect e fs d = Some (Dir m')"
  using assms effect_at [of e fs d] by auto

lemma replay_keeps_dir:
  assumes "\<forall>e\<in>set evs. \<forall>p. e \<noteq> Rmtree p" and "fs d = Some (Dir m)"
  shows "\<exists>m'. replay evs fs d = Some (Dir m')"
  using assms
proof (induction evs arbitrary: fs m)
  case Nil
  then show ?case by simp
next
  case (Cons e evs)
  from Cons.prems have "\<exists>m'. effect e fs d = Some (Dir m')" by (intro effect_keeps_dir) auto
  then obtain m' where "effect e fs d = Some (Dir m')" ..
  with Cons.IH [of "effect e fs" m'] Cons.prems(1) show ?case by simp
qed

lemma old_run_nofile: "\<forall>d c. cwd (example_world old_run order) (Dirs_value d) \<noteq> Some (File c)"
proof (intro allI)
  fix d c
  show "cwd (example_world old_run order) (Dirs_value d) \<noteq> Some (File c)"
    by (cases d) (simp_all add: example_world_def old_run_def)
qed

lemma example_world_fields [simp]:
  "cwd (example_world fs order) = fs" "trace (example_world fs order) = []"
  "clock (example_world fs order) = real" "clock_pos (example_world fs order) = 0"
  by (simp_all add: example_world_def fun_eq_iff)

text \<open>
  C10. When no label is a regular file, \<^verbatim>\<open>test\<close> records, after the reset: all
  operations of \<^verbatim>\<open>test_aiofiles\<close> and its timing line, then all of \<^verbatim>\<open>test_aiofile\<close> and
  its timing line, then the operations of the worker pool (all of them, and only
  operations on its own files) and its timing line, then all of \<^verbatim>\<open>test_file\<close> and its
  timing line, and then the cleanup. The pool runs before the direct strategy, and each
  strategy has finished when the next begins.
\<close>

theorem test_runs_strategies_in_order:
  assumes "\<forall>d c. cwd s (Dirs_value d) \<noteq> Some (File c)"
  shows "\<exists>ed. trace (snd (test fmt6f chunks s)) = trace s @ reset_events (cwd s) @
           seq_events (Dirs_value AIOFILES) 0 chunks @
           [Print (timing_line fmt6f ''Dirs.AIOFILES'' (clock s (clock_pos s)) (clock s (clock_pos s + 1)))] @
           seq_events (Dirs_value AIOFILE) 0 chunks @
           [Print (timing_line fmt6f ''Dirs.AIOFILE '' (clock s (clock_pos s + 2)) (clock s (clock_pos s + 3)))] @
           ed @
           [Print (timing_line fmt6f ''Dirs.EXECUTOR'' (clock s (clock_pos s + 4)) (clock s (clock_pos s + 5)))] @
           seq_events (Dirs_value FILE) 0 chunks @
           [Print (timing_line fmt6f ''Dirs.FILE    '' (clock s (clock_pos s + 6)) (clock s (clock_pos s + 7)))] @
           cleanup_events \<and>
         (\<forall>e\<in>set ed. \<exists>i<length chunks.
             e \<in> set (file_events (txt_name (Dirs_value EXECUTOR) i) (chunks ! i))) \<and>
         (\<forall>i<length chunks.
             set (file_events (txt_name (Dirs_value EXECUTOR) i) (chunks ! i)) \<subseteq> set ed)"
proof -
  from test_run [OF assms, of fmt6f chunks] obtain ed where
    t: "test fmt6f chunks s
          = (Inr (), after (reset_events (cwd s) @ run_events fmt6f chunks s ed @ cleanup_events) 8 s)"
    and ed1: "\<forall>e\<in>set ed. \<exists>i<length chunks.
          e \<in> set (file_events (txt_name ''executor'' i) (chunks ! i))"
    and ed2: "\<forall>i<length chunks. set (file_events (txt_name ''executor'' i) (chunks ! i)) \<subseteq> set ed"
    by blast
  show ?thesis
    by (rule exI [of _ ed]) (use ed1 ed2 in \<open>simp add: t run_events_def\<close>)
qed

theorem test_runs_strategies_in_order_witness:
  "\<exists>ed. trace (snd (test example_fmt [''AB'', ''C9''] (example_world old_run [1, 0, 0, 1]))) =
     [Rmtree [''aiofiles''], Mkdir [''aiofiles''], Mkdir [''aiofile''], Mkdir [''file''],
      Mkdir [''executor''],
      Open [''aiofiles'', ''0.txt''], Write [''aiofiles'', ''0.txt''] ''AB'', Close [''aiofiles'', ''0.txt''],
      Open [''aiofiles'', ''1.txt''], Write [''aiofiles'', ''1.txt''] ''C9'', Close [''aiofiles'', ''1.txt''],
      Print ''Dirs.AIOFILES: 1000.000000 ms'',
      Open [''aiofile'', ''0.txt''], Write [''aiofile'', ''0.txt''] ''AB'', Close [''aiofile'', ''0.txt''],
      Open [''aiofile'', ''1.txt''], Write [''aiofile'', ''1.txt''] ''C9'', Close [''aiofile'', ''1.txt''],
      Print ''Dirs.AIOFILE : 1000.000000 ms''] @ ed @
     [Print ''Dirs.EXECUTOR: 1000.000000 ms'',
      Open [''file'', ''0.txt''], Write [''file'', ''0.txt''] ''AB'', Close [''file'', ''0.txt''],
      Open [''file'', ''1.txt''], Write [''file'', ''1.txt''] ''C9'', Close [''file'', ''1.txt''],
      Print ''Dirs.FILE    : 1000.000000 ms'',
      Rmtree [''aiofiles''], Rmtree [''aiofile''], Rmtree [''file''], Rmtree [''executor'']] \<and>
     Write [''executor'', ''1.txt''] ''C9'' \<in> set ed"
proof -
  let ?W = "example_world old_run [1, 0, 0, 1]"
  from test_runs_strategies_in_order [OF old_run_nofile [of "[1, 0, 0, 1]"], of example_fmt "[''AB'', ''C9'']"]
  obtain ed where
    t: "trace (snd (test example_fmt [''AB'', ''C9''] ?W)) = trace ?W @ reset_events (cwd ?W) @
           seq_events (Dirs_value AIOFILES) 0 [''AB'', ''C9''] @
           [Print (timing_line example_fmt ''Dirs.AIOFILES'' (clock ?W (clock_pos ?W)) (clock ?W (clock_pos ?W + 1)))] @
           seq_events (Dirs_value AIOFILE) 0 [''AB'', ''C9''] @
           [Print (timing_line example_fmt ''Dirs.AIOFILE '' (clock ?W (clock_pos ?W + 2)) (clock ?W (clock_pos ?W + 3)))] @
           ed @
           [Print (timing_line example_fmt ''Dirs.EXECUTOR'' (clock ?W (clock_pos ?W + 4)) (clock ?W (clock_pos ?W + 5)))] @
           seq_events (Dirs_value FILE) 0 [''AB'', ''C9''] @
           [Print (timing_line example_fmt ''Dirs.FILE    '' (clock ?W (clock_pos ?W + 6)) (clock ?W (clock_pos ?W + 7)))] @
           cleanup_events"
    and ed2: "\<forall>i<length [''AB'', ''C9''].
             set (file_events (txt_name (Dirs_value EXECUTOR) i) ([''AB'', ''C9''] ! i)) \<subseteq> set ed"
    by blast
  from ed2 [rule_format, of 1] have w: "Write [''executor'', ''1.txt''] ''C9'' \<in> set ed"
    by (simp add: file_events_def txt_name_def str_nat.simps)
  have l: "timing_line example_fmt description (real k) (real (Suc k)) = description @ '': 1000.000000 ms''"
    for description k
    using example_timing_line [of description k] by simp
  from t w show ?thesis
    by (intro exI [of _ ed])
       (simp add: l [of _ 0, simplified] l [of _ 2, simplified] l [of _ 4, simplified]
          l [of _ 6, simplified] old_run_def reset_events_def cleanup_events_def Dirs_members_def
          file_events_def txt_name_def str_nat.simps)
qed

text \<open>
  C6. When no label is a regular file, \<^verbatim>\<open>test\<close> returns normally and records first the
  reset of all four labels, which leaves each an empty directory, then the operations of
  the four strategies, then the removal of all four labels, after which none exists.
  Between the reset and the removal no directory is removed or made, the writes of all
  four strategies happen there, and at every moment of that span all four labels are
  directories.
\<close>

theorem test_resets_before_and_deletes_after:
  assumes "\<forall>d c. cwd s (Dirs_value d) \<noteq> Some (File c)"
  shows "\<exists>run. fst (test fmt6f chunks s) = Inr () \<and>
           trace (snd (test fmt6f chunks s)) = trace s @ reset_events (cwd s) @ run @ cleanup_events \<and>
           (\<forall>d. replay (reset_events (cwd s)) (cwd s) (Dirs_value d) = Some (Dir Map.empty)) \<and>
           (\<forall>e\<in>set run. \<forall>p. e \<noteq> Rmtree p \<and> e \<noteq> Mkdir p) \<and>
           (\<forall>d. \<forall>i<length chunks. Write [Dirs_value d, str_nat i @ ''.txt''] (chunks ! i) \<in> set run) \<and>
           (\<forall>k d. \<exists>m. replay (reset_events (cwd s) @ take k run) (cwd s) (Dirs_value d) = Some (Dir m)) \<and>
           (\<forall>d. cwd (snd (test fmt6f chunks s)) (Dirs_value d) = None)"
proof -
  from test_run [OF assms, of fmt6f chunks] obtain ed where
    t: "test fmt6f chunks s
          = (Inr (), after (reset_events (cwd s) @ run_events fmt6f chunks s ed @ cleanup_events) 8 s)"
    and ed1: "\<forall>e\<in>set ed. \<exists>i<length chunks.
          e \<in> set (file_events (txt_name ''executor'' i) (chunks ! i))"
    and ed2: "\<forall>i<length chunks. set (file_events (txt_name ''executor'' i) (chunks ! i)) \<subseteq> set ed"
    and f: "replay (reset_events (cwd s) @ run_events fmt6f chunks s ed) (cwd s)
            = (cwd s)(''aiofiles'' \<mapsto> Dir (chunk_files chunks), ''aiofile'' \<mapsto> Dir (chunk_files chunks),
                      ''file'' \<mapsto> Dir (chunk_files chunks), ''executor'' \<mapsto> Dir (chunk_files chunks))"
    by blast
  let ?run = "run_events fmt6f chunks s ed"
  have 1: "fst (test fmt6f chunks s) = Inr ()" by (simp add: t)
  have 2: "trace (snd (test fmt6f chunks s)) = trace s @ reset_events (cwd s) @ ?run @ cleanup_events"
    by (simp add: t)
  have 3: "\<forall>d. replay (reset_events (cwd s)) (cwd s) (Dirs_value d) = Some (Dir Map.empty)"
    using reset_leaves_dirs [OF assms] by blast
  have 4: "\<forall>e\<in>set ?run. \<forall>p. e \<noteq> Rmtree p \<and> e \<noteq> Mkdir p"
    using run_events_kinds [OF ed1] by blast
  have 5: "\<forall>d. \<forall>i<length chunks. Write [Dirs_value d, str_nat i @ ''.txt''] (chunks ! i) \<in> set ?run"
    using run_events_writes [OF ed2] by blast
  have 6: "\<forall>k d. \<exists>m. replay (reset_events (cwd s) @ take k ?run) (cwd s) (Dirs_value d) = Some (Dir m)"
  proof (intro allI)
    fix k d
    have "\<forall>e\<in>set (take k ?run). \<forall>p. e \<noteq> Rmtree p" using 4 by (blast dest: in_set_takeD)
    with 3 [rule_format, of d]
      replay_keeps_dir [of "take k ?run" "replay (reset_events (cwd s)) (cwd s)" "Dirs_value d" Map.empty]
    show "\<exists>m. replay (reset_events (cwd s) @ take k ?run) (cwd s) (Dirs_value d) = Some (Dir m)"
      by simp
  qed
  have "cwd (snd (test fmt6f chunks s))
          = replay cleanup_events (replay (reset_events (cwd s) @ ?run) (cwd s))"
    by (simp add: t)
  then have 7: "\<forall>d. cwd (snd (test fmt6f chunks s)) (Dirs_value d) = None"
  proof (intro allI)
    fix d
    assume c: "cwd (snd (test fmt6f chunks s))
          = replay cleanup_events (replay (reset_events (cwd s) @ ?run) (cwd s))"
    show "cwd (snd (test fmt6f chunks s)) (Dirs_value d) = None"
      unfolding c f by (cases d) (simp_all add: cleanup_events_def Dirs_members_def)
  qed
  show ?thesis
    by (intro exI [of _ ?run] conjI 1 2 3 4 5 6 7)
qed

theorem test_resets_before_and_deletes_after_witness:
  "\<exists>run. fst (test example_fmt [''AB'', ''C9''] (example_world old_run [1, 0, 0, 1])) = Inr () \<and>
     trace (snd (test example_fmt [''AB'', ''C9''] (example_world old_run [1, 0, 0, 1]))) =
       [Rmtree [''aiofiles''], Mkdir [''aiofiles''], Mkdir [''aiofile''], Mkdir [''file''],
        Mkdir [''executor'']] @ run @
       [Rmtree [''aiofiles''], Rmtree [''aiofile''], Rmtree [''file''], Rmtree [''executor'']] \<and>
     Write [''executor'', ''1.txt''] ''C9'' \<in> set run \<and>
     (\<exists>m. replay ([Rmtree [''aiofiles''], Mkdir [''aiofiles''], Mkdir [''aiofile''], Mkdir [''file''],
                    Mkdir [''executor'']] @ take 3 run) old_run ''file'' = Some (Dir m)) \<and>
     cwd (snd (test example_fmt [''AB'', ''C9''] (example_world old_run [1, 0, 0, 1]))) ''aiofiles'' = None"
proof -
  let ?W = "example_world old_run [1, 0, 0, 1]"
  let ?chunks = "[''AB'', ''C9'']"
  from test_resets_before_and_deletes_after [OF old_run_nofile [of "[1, 0, 0, 1]"], of example_fmt ?chunks]
  obtain run where
    1: "fst (test example_fmt ?chunks ?W) = Inr ()"
    and 2: "trace (snd (test example_fmt ?chunks ?W)) = trace ?W @ reset_events (cwd ?W) @ run @ cleanup_events"
    and 5: "\<forall>d. \<forall>i<length ?chunks. Write [Dirs_value d, str_nat i @ ''.txt''] (?chunks ! i) \<in> set run"
    and 6: "\<forall>k d. \<exists>m. replay (reset_events (cwd ?W) @ take k run) (cwd ?W) (Dirs_value d) = Some (Dir m)"
    and 7: "\<forall>d. cwd (snd (test example_fmt ?chunks ?W)) (Dirs_value d) = None"
    by blast
  have r: "reset_events (cwd ?W) = [Rmtree [''aiofiles''], Mkdir [''aiofiles''], Mkdir [''aiofile''],
             Mkdir [''file''], Mkdir [''executor'']]"
    by (simp add: reset_events_def Dirs_members_def old_run_def)
  have c: "cleanup_events = [Rmtree [''aiofiles''], Rmtree [''aiofile''], Rmtree [''file''],
             Rmtree [''executor'']]"
    by (simp add: cleanup_events_def Dirs_members_def)
  from 5 [rule_format, of 1 EXECUTOR] have w: "Write [''executor'', ''1.txt''] ''C9'' \<in> set run"
    by (simp add: str_nat.simps)
  from 6 [rule_format, of 3 FILE] have d: "\<exists>m. replay ([Rmtree [''aiofiles''], Mkdir [''aiofiles''],
      Mkdir [''aiofile''], Mkdir [''file''], Mkdir [''executor'']] @ take 3 run) old_run ''file'' = Some (Dir m)"
    unfolding r by simp
  from 7 [rule_format, of AIOFILES]
  have n: "cwd (snd (test example_fmt ?chunks ?W)) ''aiofiles'' = None" by simp
  from 2 have t: "trace (snd (test example_fmt ?chunks ?W)) =
       [Rmtree [''aiofiles''], Mkdir [''aiofiles''], Mkdir [''aiofile''], Mkdir [''file''],
        Mkdir [''executor'']] @ run @
       [Rmtree [''aiofiles''], Rmtree [''aiofile''], Rmtree [''file''], Rmtree [''executor'']]"
    unfolding r c by simp
  show ?thesis
    by (intro exI [of _ run] conjI 1 t w d n)
qed

subsection \<open>A run of main\<close>

lemma config_line: "''n='' @ str_int 10 @ '', chunk_size='' @ str_int (1024 * 10) = ''n=10, chunk_size=10240''"
  by (simp add: str_int_def str_nat.simps)

lemma run_events_cong:
  "clock s' = clock s \<Longrightarrow> clock_pos s' = clock_pos s \<Longrightarrow>
   run_events fmt6f chunks s' ed = run_events fmt6f chunks s ed"
  by (simp add: run_events_def)

lemma main_run:
  assumes rnd: "\<forall>j. 0 \<le> rand s j \<and> rand s j < 1"
    and nofile: "\<forall>d c. cwd s (Dirs_value d) \<noteq> Some (File c)"
  shows "\<exists>chunks ed.
      fst (main fmt6f s) = Inr () \<and>
      trace (snd (main fmt6f s)) = trace s @ [Print ''n=10, chunk_size=10240''] @
         reset_events (cwd s) @ run_events fmt6f chunks s ed @ cleanup_events @ [Print ''Exited''] \<and>
      fst (generate_random_chunks 10 10240 (py_print ''n=10, chunk_size=10240'' s)) = Inr chunks \<and>
      length chunks = 10 \<and>
      (\<forall>c\<in>set chunks. length c = 10240 \<and> set c \<subseteq> set (ascii_uppercase @ digits)) \<and>
      (\<forall>e\<in>set ed. \<exists>i<length chunks.
          e \<in> set (file_events (txt_name ''executor'' i) (chunks ! i))) \<and>
      (\<forall>i<length chunks. set (file_events (txt_name ''executor'' i) (chunks ! i)) \<subseteq> set ed)"
proof -
  let ?cfg = "''n=10, chunk_size=10240''"
  let ?s1 = "py_print ?cfg s"
  have s1: "cwd ?s1 = cwd s" "trace ?s1 = trace s @ [Print ?cfg]" "clock ?s1 = clock s"
    "clock_pos ?s1 = clock_pos s" "rand ?s1 = rand s"
    by (simp_all add: py_print_after)
  have "\<forall>j. 0 \<le> rand ?s1 j \<and> rand ?s1 j < 1" using rnd by (simp add: s1)
  from generate_random_chunks_run [OF this, of 10 10240] obtain chunks where
    g: "generate_random_chunks 10 10240 ?s1
          = (Inr chunks, ?s1\<lparr>rand_pos := rand_pos ?s1 + nat 10 * nat 10240\<rparr>)"
    and len: "length chunks = nat 10"
    and cs: "\<forall>c\<in>set chunks. length c = nat 10240 \<and> set c \<subseteq> set (ascii_uppercase @ digits)"
    by blast
  let ?s2 = "?s1\<lparr>rand_pos := rand_pos ?s1 + nat 10 * nat 10240\<rparr>"
  have s2: "cwd ?s2 = cwd s" "trace ?s2 = trace s @ [Print ?cfg]" "clock ?s2 = clock s"
    "clock_pos ?s2 = clock_pos s"
    by (simp_all add: s1)
  have "\<forall>d c. cwd ?s2 (Dirs_value d) \<noteq> Some (File c)" using nofile by (simp add: s1)
  from test_run [OF this, of fmt6f chunks] obtain ed where
    t: "test fmt6f chunks ?s2
          = (Inr (), after (reset_events (cwd ?s2) @ run_events fmt6f chunks ?s2 ed @ cleanup_events) 8 ?s2)"
    and ed1: "\<forall>e\<in>set ed. \<exists>i<length chunks.
          e \<in> set (file_events (txt_name ''executor'' i) (chunks ! i))"
    and ed2: "\<forall>i<length chunks. set (file_events (txt_name ''executor'' i) (chunks ! i)) \<subseteq> set ed"
    by blast
  have re: "run_events fmt6f chunks ?s2 ed = run_events fmt6f chunks s ed"
    by (rule run_events_cong) (simp_all only: s2)
  let ?s3 = "after (reset_events (cwd s) @ run_events fmt6f chunks s ed @ cleanup_events) 8 ?s2"
  from t have t': "test fmt6f chunks ?s2 = (Inr (), ?s3)" by (simp only: re s2)
  have m: "main fmt6f s = (Inr (), py_print ''Exited'' ?s3)"
  proof -
    have k: "(1024::int) * 10 = 10240" by simp
    show ?thesis
      unfolding main_def Let_def config_line
      by (simp only: k g t' prod.case sum.case)
  qed
  have tr: "trace (py_print ''Exited'' ?s3) = trace s @ [Print ?cfg] @
         reset_events (cwd s) @ run_events fmt6f chunks s ed @ cleanup_events @ [Print ''Exited'']"
    by (simp add: py_print_after s2)
  from g have g': "fst (generate_random_chunks 10 10240 ?s1) = Inr chunks" by simp
  from len have len': "length chunks = 10" by simp
  from cs have cs': "\<forall>c\<in>set chunks. length c = 10240 \<and> set c \<subseteq> set (ascii_uppercase @ digits)"
    by simp
  have a: "fst (main fmt6f s) = Inr ()" by (simp only: m fst_conv)
  have b: "trace (snd (main fmt6f s)) = trace s @ [Print ?cfg] @
         reset_events (cwd s) @ run_events fmt6f chunks s ed @ cleanup_events @ [Print ''Exited'']"
    by (simp only: m snd_conv tr)
  show ?thesis
    by (intro exI [of _ chunks] exI [of _ ed] conjI a b g' len' cs' ed1 ed2)
qed

lemma main_printed:
  assumes "\<forall>j. 0 \<le> rand s j \<and> rand s j < 1"
    and "\<forall>d c. cwd s (Dirs_value d) \<noteq> Some (File c)"
  shows "printed (trace (snd (main fmt6f s))) = printed (trace s) @
     [''n=10, chunk_size=10240'',
      timing_line fmt6f ''Dirs.AIOFILES'' (clock s (clock_pos s)) (clock s (clock_pos s + 1)),
      timing_line fmt6f ''Dirs.AIOFILE '' (clock s (clock_pos s + 2)) (clock s (clock_pos s + 3)),
      timing_line fmt6f ''Dirs.EXECUTOR'' (clock s (clock_pos s + 4)) (clock s (clock_pos s + 5)),
      timing_line fmt6f ''Dirs.FILE    '' (clock s (clock_pos s + 6)) (clock s (clock_pos s + 7)),
      ''Exited'']"
proof -
  from main_run [OF assms, of fmt6f] obtain chunks ed where
    tr: "trace (snd (main fmt6f s)) = trace s @ [Print ''n=10, chunk_size=10240''] @
         reset_events (cwd s) @ run_events fmt6f chunks s ed @ cleanup_events @ [Print ''Exited'']"
    and ed1: "\<forall>e\<in>set ed. \<exists>i<length chunks.
          e \<in> set (file_events (txt_name ''executor'' i) (chunks ! i))"
    by blast
  show ?thesis
    by (simp add: tr printed_run_events [OF ed1])
qed

lemma example_lines:
  "printed (trace (snd (main example_fmt (example_world old_run [])))) =
     [''n=10, chunk_size=10240'', ''Dirs.AIOFILES: 1000.000000 ms'', ''Dirs.AIOFILE : 1000.000000 ms'',
      ''Dirs.EXECUTOR: 1000.000000 ms'', ''Dirs.FILE    : 1000.000000 ms'', ''Exited'']"
proof -
  have l: "timing_line example_fmt description (real k) (real (Suc k)) = description @ '': 1000.000000 ms''"
    for description k
    using example_timing_line [of description k] by simp
  from main_printed [OF example_world_rand [of old_run "[]"] old_run_nofile [of "[]"], of example_fmt]
  show ?thesis
    by (simp add: l [of _ 0, simplified] l [of _ 2, simplified] l [of _ 4, simplified]
          l [of _ 6, simplified])
qed

text \<open>
  C7 as stated fails: the description of a timing line is the formatted enumeration
  member, padded with spaces, not the string that names the directory.
\<close>

theorem main_labels_are_not_directory_names:
  "printed (trace (snd (main example_fmt (example_world old_run [])))) ! 1
     = ''Dirs.AIOFILES: 1000.000000 ms'' \<and>
   printed (trace (snd (main example_fmt (example_world old_run [])))) ! 4
     = ''Dirs.FILE    : 1000.000000 ms'' \<and>
   printed (trace (snd (main example_fmt (example_world old_run [])))) ! 1
     \<noteq> Dirs_value AIOFILES @ '': 1000.000000 ms'' \<and>
   printed (trace (snd (main example_fmt (example_world old_run [])))) ! 4
     \<noteq> Dirs_value FILE @ '': 1000.000000 ms''"
  by (simp add: example_lines)

text \<open>
  C7 (amended). When \<^verbatim>\<open>random.random()\<close> yields values in \<open>[0, 1)\<close> and no label is a
  regular file, \<^verbatim>\<open>main\<close> records the line \<^verbatim>\<open>n=10, chunk_size=10240\<close> first, then the
  reset, the strategies and the cleanup, and the line \<^verbatim>\<open>Exited\<close> last. The strategies
  print exactly four lines, in this order: \<^verbatim>\<open>Dirs.AIOFILES\<close>, \<^verbatim>\<open>Dirs.AIOFILE \<close>,
  \<^verbatim>\<open>Dirs.EXECUTOR\<close> and \<^verbatim>\<open>Dirs.FILE    \<close>, each followed by a colon, a space, the
  elapsed milliseconds as the runtime renders them, and \<^verbatim>\<open> ms\<close>.
\<close>

theorem main_console_output:
  assumes "\<forall>j. 0 \<le> rand s j \<and> rand s j < 1"
    and "\<forall>d c. cwd s (Dirs_value d) \<noteq> Some (File c)"
  shows "\<exists>run. trace (snd (main fmt6f s)) = trace s @ [Print ''n=10, chunk_size=10240''] @
           reset_events (cwd s) @ run @ cleanup_events @ [Print ''Exited''] \<and>
         printed run =
           [''Dirs.AIOFILES: '' @ fmt6f ((clock s (clock_pos s + 1) - clock s (clock_pos s)) * 10 ^ 3) @ '' ms'',
            ''Dirs.AIOFILE : '' @ fmt6f ((clock s (clock_pos s + 3) - clock s (clock_pos s + 2)) * 10 ^ 3) @ '' ms'',
            ''Dirs.EXECUTOR: '' @ fmt6f ((clock s (clock_pos s + 5) - clock s (clock_pos s + 4)) * 10 ^ 3) @ '' ms'',
            ''Dirs.FILE    : '' @ fmt6f ((clock s (clock_pos s + 7) - clock s (clock_pos s + 6)) * 10 ^ 3) @ '' ms''] \<and>
         printed (trace (snd (main fmt6f s))) = printed (trace s) @
           ''n=10, chunk_size=10240'' # printed run @ [''Exited'']"
proof -
  from main_run [OF assms, of fmt6f] obtain chunks ed where
    tr: "trace (snd (main fmt6f s)) = trace s @ [Print ''n=10, chunk_size=10240''] @
         reset_events (cwd s) @ run_events fmt6f chunks s ed @ cleanup_events @ [Print ''Exited'']"
    and ed1: "\<forall>e\<in>set ed. \<exists>i<length chunks.
          e \<in> set (file_events (txt_name ''executor'' i) (chunks ! i))"
    by blast
  show ?thesis
    by (rule exI [of _ "run_events fmt6f chunks s ed"])
       (simp add: tr printed_run_events [OF ed1] timing_line_def)
qed

theorem main_console_output_witness:
  "printed (trace (snd (main example_fmt (example_world old_run [])))) =
     [''n=10, chunk_size=10240'', ''Dirs.AIOFILES: 1000.000000 ms'', ''Dirs.AIOFILE : 1000.000000 ms'',
      ''Dirs.EXECUTOR: 1000.000000 ms'', ''Dirs.FILE    : 1000.000000 ms'', ''Exited''] \<and>
   hd (trace (snd (main example_fmt (example_world old_run [])))) = Print ''n=10, chunk_size=10240'' \<and>
   last (trace (snd (main example_fmt (example_world old_run [])))) = Print ''Exited''"
proof -
  let ?W = "example_world old_run []"
  from main_console_output [OF example_world_rand [of old_run "[]"] old_run_nofile [of "[]"], of example_fmt]
  obtain run where
    t: "trace (snd (main example_fmt ?W)) = trace ?W @ [Print ''n=10, chunk_size=10240''] @
           reset_events (cwd ?W) @ run @ cleanup_events @ [Print ''Exited'']"
    and p: "printed run =
           [''Dirs.AIOFILES: '' @ example_fmt ((clock ?W (clock_pos ?W + 1) - clock ?W (clock_pos ?W)) * 10 ^ 3) @ '' ms'',
            ''Dirs.AIOFILE : '' @ example_fmt ((clock ?W (clock_pos ?W + 3) - clock ?W (clock_pos ?W + 2)) * 10 ^ 3) @ '' ms'',
            ''Dirs.EXECUTOR: '' @ example_fmt ((clock ?W (clock_pos ?W + 5) - clock ?W (clock_pos ?W + 4)) * 10 ^ 3) @ '' ms'',
            ''Dirs.FILE    : '' @ example_fmt ((clock ?W (clock_pos ?W + 7) - clock ?W (clock_pos ?W + 6)) * 10 ^ 3) @ '' ms'']"
    and q: "printed (trace (snd (main example_fmt ?W))) = printed (trace ?W) @
           ''n=10, chunk_size=10240'' # printed run @ [''Exited'']"
    by blast
  have f: "example_fmt 1000 = ''1000.000000''"
    by (simp add: example_fmt_def str_int_def str_nat.simps)
  from p have p': "printed run = [''Dirs.AIOFILES: 1000.000000 ms'', ''Dirs.AIOFILE : 1000.000000 ms'',
      ''Dirs.EXECUTOR: 1000.000000 ms'', ''Dirs.FILE    : 1000.000000 ms'']"
    by (simp add: f)
  from t have h: "hd (trace (snd (main example_fmt ?W))) = Print ''n=10, chunk_size=10240''"
    by simp
  from t have e: "last (trace (snd (main example_fmt ?W))) = Print ''Exited''"
    by simp
  from q p' h e show ?thesis by simp
qed

text \<open>
  C9. \<^verbatim>\<open>main\<close> has no parameter but the world it runs in. When
  \<^verbatim>\<open>random.random()\<close> yields values in \<open>[0, 1)\<close> and no label is a regular file, the first
  line is \<^verbatim>\<open>n=10, chunk_size=10240\<close>, ten chunks are generated, each of 10240
  characters, every strategy writes the \<open>i\<close>-th of them to its \<open>i.txt\<close>, and nothing
  else is ever written.
\<close>

theorem main_default_configuration:
  assumes "\<forall>j. 0 \<le> rand s j \<and> rand s j < 1"
    and "\<forall>d c. cwd s (Dirs_value d) \<noteq> Some (File c)"
  shows "\<exists>chunks evs.
           trace (snd (main fmt6f s)) = trace s @ Print ''n=10, chunk_size=10240'' # evs \<and>
           fst (generate_random_chunks 10 10240 (py_print ''n=10, chunk_size=10240'' s)) = Inr chunks \<and>
           length chunks = 10 \<and>
           (\<forall>c\<in>set chunks. length c = 10240) \<and>
           (\<forall>d. \<forall>i<10. Write [Dirs_value d, str_nat i @ ''.txt''] (chunks ! i) \<in> set evs) \<and>
           (\<forall>p data. Write p data \<in> set evs \<longrightarrow> data \<in> set chunks)"
proof -
  from main_run [OF assms, of fmt6f] obtain chunks ed where
    tr: "trace (snd (main fmt6f s)) = trace s @ [Print ''n=10, chunk_size=10240''] @
         reset_events (cwd s) @ run_events fmt6f chunks s ed @ cleanup_events @ [Print ''Exited'']"
    and g: "fst (generate_random_chunks 10 10240 (py_print ''n=10, chunk_size=10240'' s)) = Inr chunks"
    and len: "length chunks = 10"
    and cs: "\<forall>c\<in>set chunks. length c = 10240 \<and> set c \<subseteq> set (ascii_uppercase @ digits)"
    and ed1: "\<forall>e\<in>set ed. \<exists>i<length chunks.
          e \<in> set (file_events (txt_name ''executor'' i) (chunks ! i))"
    and ed2: "\<forall>i<length chunks. set (file_events (txt_name ''executor'' i) (chunks ! i)) \<subseteq> set ed"
    by blast
  let ?evs = "reset_events (cwd s) @ run_events fmt6f chunks s ed @ cleanup_events @ [Print ''Exited'']"
  have 1: "trace (snd (main fmt6f s)) = trace s @ Print ''n=10, chunk_size=10240'' # ?evs"
    by (simp add: tr)
  have 2: "\<forall>c\<in>set chunks. length c = 10240" using cs by blast
  have 3: "\<forall>d. \<forall>i<10. Write [Dirs_value d, str_nat i @ ''.txt''] (chunks ! i) \<in> set ?evs"
    using run_events_writes [OF ed2, of _ _ fmt6f s] len by simp
  have 4: "\<forall>p data. Write p data \<in> set ?evs \<longrightarrow> data \<in> set chunks"
  proof (intro allI impI)
    fix p data assume "Write p data \<in> set ?evs"
    then have "Write p data \<in> set (run_events fmt6f chunks s ed)"
      by (auto simp: reset_events_def cleanup_events_def Dirs_members_def split: if_splits)
    with ed1 show "data \<in> set chunks" by (rule run_events_write_data)
  qed
  show ?thesis
    by (intro exI [of _ chunks] exI [of _ ?evs] conjI 1 g len 2 3 4)
qed

theorem main_default_configuration_witness:
  "\<exists>chunks evs.
      trace (snd (main example_fmt (example_world old_run []))) = Print ''n=10, chunk_size=10240'' # evs \<and>
      length chunks = 10 \<and> length (chunks ! 9) = 10240 \<and>
      Write [''file'', ''9.txt''] (chunks ! 9) \<in> set evs"
proof -
  let ?W = "example_world old_run []"
  from main_default_configuration [OF example_world_rand [of old_run "[]"] old_run_nofile [of "[]"], of example_fmt]
  obtain chunks evs where
    t: "trace (snd (main example_fmt ?W)) = trace ?W @ Print ''n=10, chunk_size=10240'' # evs"
    and len: "length chunks = 10"
    and cs: "\<forall>c\<in>set chunks. length c = 10240"
    and w: "\<forall>d. \<forall>i<10. Write [Dirs_value d, str_nat i @ ''.txt''] (chunks ! i) \<in> set evs"
    by blast
  from len have "chunks ! 9 \<in> set chunks" by simp
  with cs have 1: "length (chunks ! 9) = 10240" by blast
  from w [rule_format, of 9 FILE] have 2: "Write [''file'', ''9.txt''] (chunks ! 9) \<in> set evs"
    by (simp add: str_nat.simps)
  from t have 3: "trace (snd (main example_fmt ?W)) = Print ''n=10, chunk_size=10240'' # evs"
    by simp
  show ?thesis
    by (intro exI [of _ chunks] exI [of _ evs] conjI 3 len 1 2)
qed

end

